theory Spec2Isabelle
  imports Complex_Main
begin

section \<open>The demo timeline engine of \<open>src/App.tsx\<close>\<close>

text \<open>
  The component \<open>ReainoEbmPapstDemo\<close> keeps a clock \<open>t\<close> (seconds) and a handful of
  stores (agents, artifacts, bus events, KPIs, deploy stage and gate). Its \<open>useEffect\<close>
  hooks recompute the stores whenever \<open>t\<close> changes. The hooks are embedded here as
  functions from the old store to the new one, the component state as a record, and the
  buttons and the interval timer as commands that transform the record.

  Numbers: the clock only ever holds a natural number (it starts at 0, is incremented by
  1, replaced by \<open>Math.max(t, 160)\<close> or \<open>Math.max(t, 120)\<close>, or reset to 0), so it is a
  \<open>nat\<close>. A JavaScript number is the real number it denotes. In the stage progress
  function every subtraction, division and multiplication is followed by the rounding of
  IEEE 754 binary64 (\<open>fl64\<close> below), as the source computes it. The KPI projector, whose
  values go through \<open>Math.sin\<close>, is embedded over the reals without rounding; what is
  proved of it is only where a value is null.
\<close>

subsection \<open>Characters outside ASCII, as their UTF-8 bytes\<close>

definition u_bullet :: string where \<comment> \<open>U+2022\<close>
  "u_bullet = [CHR 0xE2, CHR 0x80, CHR 0xA2]"

definition u_ellipsis :: string where \<comment> \<open>U+2026\<close>
  "u_ellipsis = [CHR 0xE2, CHR 0x80, CHR 0xA6]"

definition u_emdash :: string where \<comment> \<open>U+2014\<close>
  "u_emdash = [CHR 0xE2, CHR 0x80, CHR 0x94]"

definition u_rarrow :: string where \<comment> \<open>U+2192\<close>
  "u_rarrow = [CHR 0xE2, CHR 0x86, CHR 0x92]"

definition u_larrow :: string where \<comment> \<open>U+2190\<close>
  "u_larrow = [CHR 0xE2, CHR 0x86, CHR 0x90]"

definition u_Sigma :: string where \<comment> \<open>U+03A3\<close>
  "u_Sigma = [CHR 0xCE, CHR 0xA3]"

definition u_Delta :: string where \<comment> \<open>U+0394\<close>
  "u_Delta = [CHR 0xCE, CHR 0x94]"

definition u_check :: string where \<comment> \<open>U+2713\<close>
  "u_check = [CHR 0xE2, CHR 0x9C, CHR 0x93]"

definition u_warning :: string where \<comment> \<open>U+26A0\<close>
  "u_warning = [CHR 0xE2, CHR 0x9A, CHR 0xA0]"

subsection \<open>Data model\<close>

datatype AgentStatus = Queued | Planning | Running | NeedsReview | Done | Failed

datatype Severity = info | warn | ok

datatype ArtifactKind = KManifest | KBindings | KKpis | KViews | KValidation

datatype Bus = ModbusTCP | OPCUA | MQTT | TimescaleDB

datatype Trend = up | down | flat

datatype DeployStage = Draft | Staging | Prod

text \<open>The field \<open>id\<close> of an agent is \<open>aid\<close> here (\<open>id\<close> is the identity function of HOL).\<close>

record Agent =
  aid :: string
  name :: string
  status :: AgentStatus
  progress :: int
  outputArtifacts :: "string list"
  logs :: "string list"

text \<open>A diff line \<open>{ sev, text }\<close> is a pair.\<close>

type_synonym DiffLine = "Severity \<times> string"

record Artifact =
  key :: string
  label :: string
  kind :: ArtifactKind
  version :: int
  lastUpdatedSec :: nat
  summary :: string
  diffLines :: "DiffLine list"

text \<open>
  The artifact store is an object with the five keys \<open>manifest\<close>, \<open>bindings\<close>, \<open>kpis\<close>,
  \<open>views\<close> and \<open>validation\<close>; no key is ever added or removed.
\<close>

record ArtifactStore =
  manifest :: Artifact
  bindings :: Artifact
  kpisPack :: Artifact
  views :: Artifact
  validation :: Artifact

record BusEvent =
  ev_t :: nat
  bus :: Bus
  sev :: Severity
  msg :: string

text \<open>A KPI; \<open>kvalue\<close> is \<open>None\<close> where the source holds \<open>null\<close>.\<close>

record KPI =
  kkey :: string
  klabel :: string
  unit :: "string option"
  kvalue :: "real option"
  target :: "real option"
  trend :: Trend
  confidence :: int

subsection \<open>Numeric helpers\<close>

definition clamp :: "real \<Rightarrow> real \<Rightarrow> real \<Rightarrow> real" where
  "clamp x a b = max a (min b x)"

definition lerp :: "real \<Rightarrow> real \<Rightarrow> real \<Rightarrow> real" where
  "lerp a b u = a + (b - a) * u"

text \<open>\<open>Math.round\<close>: the nearest integer, a tie going up.\<close>

definition math_round :: "real \<Rightarrow> int" where
  "math_round x = \<lfloor>x + 1 / 2\<rfloor>"

subsection \<open>Rounding to double precision\<close>

text \<open>
  The result of an arithmetic operation on doubles is the exact result rounded to the
  nearest binary64 number, a tie going to the even significand. A binary64 number has a
  significand of 53 bits; the unit in the last place of a number \<open>x\<close> with
  \<open>2\<^sup>e \<le> \<bar>x\<bar> < 2\<^sup>e\<^sup>+\<^sup>1\<close> is \<open>2\<^sup>e\<^sup>-\<^sup>5\<^sup>2\<close>, and \<open>2\<^sup>-\<^sup>1\<^sup>0\<^sup>7\<^sup>4\<close> for the subnormal numbers
  below \<open>2\<^sup>-\<^sup>1\<^sup>0\<^sup>2\<^sup>2\<close>. Infinities and NaN are not values of this embedding: \<open>fl64\<close> is
  the rounding of the source wherever the rounded result is below \<open>2\<^sup>1\<^sup>0\<^sup>2\<^sup>4\<close> in magnitude.
\<close>

text \<open>The nearest integer, a tie going to the even one.\<close>

definition round_even :: "real \<Rightarrow> int" where
  "round_even y =
     (let f = \<lfloor>y\<rfloor>; r = y - of_int f
      in if r < 1 / 2 then f
         else if r > 1 / 2 then f + 1
         else if even f then f else f + 1)"

text \<open>The exponent of the unit in the last place.\<close>

definition ulp_exp :: "real \<Rightarrow> int" where
  "ulp_exp x = max \<lfloor>log 2 \<bar>x\<bar>\<rfloor> (- 1022) - 52"

definition fl64 :: "real \<Rightarrow> real" where
  "fl64 x = of_int (round_even (x / 2 powr of_int (ulp_exp x))) * 2 powr of_int (ulp_exp x)"

subsection \<open>\<open>formatSec\<close>\<close>

text \<open>\<open>String(n)\<close> for a natural number: its decimal digits.\<close>

definition digit_char :: "nat \<Rightarrow> char" where
  "digit_char d = ''0123456789'' ! d"

fun string_of_nat :: "nat \<Rightarrow> string" where
  "string_of_nat n =
     (if n < 10 then [digit_char n]
      else string_of_nat (n div 10) @ [digit_char (n mod 10)])"

declare string_of_nat.simps [simp del]

definition padStart2 :: "string \<Rightarrow> string" where
  \<comment> \<open>\<open>s.padStart(2, "0")\<close>\<close>
  "padStart2 s = replicate (2 - length s) CHR ''0'' @ s"

definition formatSec :: "nat \<Rightarrow> string" where
  "formatSec s = padStart2 (string_of_nat (s div 60)) @ '':'' @ padStart2 (string_of_nat (s mod 60))"

subsection \<open>The timeline table\<close>

definition duration :: nat where "duration = 180"

definition promptStart :: nat where "promptStart = 0"
definition promptEnd :: nat where "promptEnd = 14"
definition specStart :: nat where "specStart = 6"
definition specEnd :: nat where "specEnd = 32"
definition topoStart :: nat where "topoStart = 16"
definition topoEnd :: nat where "topoEnd = 40"
definition connStart :: nat where "connStart = 30"
definition connEnd :: nat where "connEnd = 74"
definition derStart :: nat where "derStart = 55"
definition derEnd :: nat where "derEnd = 95"
definition kpiStart :: nat where "kpiStart = 70"
definition kpiEnd :: nat where "kpiEnd = 120"
definition viewStart :: nat where "viewStart = 95"
definition viewEnd :: nat where "viewEnd = 140"
definition valStart :: nat where "valStart = 130"
definition valEnd :: nat where "valEnd = 160"
definition deployReady :: nat where "deployReady = 160"

subsection \<open>Stage progress and status\<close>

text \<open>
  In the source both functions are closures over the clock \<open>t\<close>; here \<open>t\<close> is their first
  argument. With \<open>end = start\<close> and \<open>t = start\<close> the source divides 0 by 0 and returns NaN;
  every caller passes \<open>start < end\<close>. The expression
  \<open>Math.round(clamp((t - start) / (end - start), 0, 1) * 100)\<close> rounds four times: after
  each subtraction, after the division and after the multiplication; \<open>clamp\<close> and
  \<open>Math.round\<close> are exact.
\<close>

definition stageProgress :: "real \<Rightarrow> real \<Rightarrow> real \<Rightarrow> int" where
  "stageProgress t start end' =
     (if t < start then 0
      else if t > end' then 100
      else math_round
             (fl64 (clamp (fl64 (fl64 (t - start) / fl64 (end' - start))) 0 1 * 100)))"

definition computeStatus :: "real \<Rightarrow> int \<Rightarrow> real \<Rightarrow> real \<Rightarrow> AgentStatus" where
  "computeStatus t p start end' =
     (if t < start then Queued
      else if p > 0 \<and> p < 20 then Planning
      else if p \<ge> 20 \<and> p < 95 then Running
      else if p \<ge> 95 \<and> t < end' then NeedsReview
      else if t \<ge> end' then Done
      else Queued)"


subsection \<open>Array slices\<close>

text \<open>\<open>xs.slice(k)\<close> for an integer \<open>k\<close>: a negative \<open>k\<close> counts from the end.\<close>

definition slice_from :: "int \<Rightarrow> 'a list \<Rightarrow> 'a list" where
  "slice_from k xs =
     drop (nat (if k < 0 then max (int (length xs) + k) 0 else min k (int (length xs)))) xs"

subsection \<open>Bus event emitter\<close>

definition pushBus :: "BusEvent \<Rightarrow> BusEvent list \<Rightarrow> BusEvent list" where
  "pushBus evt prev =
     (let next = prev @ [evt]
      in slice_from (max 0 (int (length next) - 70)) next)"

text \<open>The effect \<open>Script bus activity\<close>: one \<open>if (t === N) pushBus(...)\<close> after the other.\<close>

definition busActivity :: "nat \<Rightarrow> BusEvent list \<Rightarrow> BusEvent list" where
  "busActivity t evs0 =
     (let
        evs = evs0;
        evs = (if t = 2 then pushBus \<lparr>ev_t = t, bus = TimescaleDB, sev = info,
                 msg = ''Workspace created: ebm-papst/cabinetA''\<rparr> evs else evs);
        evs = (if t = 8 then pushBus \<lparr>ev_t = t, bus = TimescaleDB, sev = ok,
                 msg = ''Twin PR branch: draft/v1 created''\<rparr> evs else evs);
        evs = (if t = 33 then pushBus \<lparr>ev_t = t, bus = ModbusTCP, sev = info,
                 msg = ''Connecting to PLC gateway 10.0.2.31:502''\<rparr> evs else evs);
        evs = (if t = 38 then pushBus \<lparr>ev_t = t, bus = ModbusTCP, sev = ok,
                 msg = ''Handshake OK. Reading holding registers'' @ u_ellipsis\<rparr> evs else evs);
        evs = (if t = 44 then pushBus \<lparr>ev_t = t, bus = ModbusTCP, sev = info,
                 msg = ''Discovered tags: RPM_A, RPM_B, kW_A, kW_B, Temp_Cab''\<rparr> evs else evs);
        evs = (if t = 52 then pushBus \<lparr>ev_t = t, bus = MQTT, sev = info,
                 msg = ''Subscribing: ebmpapst/cabinetA/faults/#''\<rparr> evs else evs);
        evs = (if t = 60 then pushBus \<lparr>ev_t = t, bus = MQTT, sev = ok,
                 msg = ''Live faults stream online (no active faults)''\<rparr> evs else evs);
        evs = (if t = 68 then pushBus \<lparr>ev_t = t, bus = TimescaleDB, sev = ok,
                 msg = ''Ingest pipeline started (1s sample '' @ u_rarrow @ '' 1m rollup)''\<rparr> evs
               else evs);
        evs = (if t = 76 then pushBus \<lparr>ev_t = t, bus = TimescaleDB, sev = warn,
                 msg = ''Unit check: kW_A appears in W '' @ u_rarrow @ '' normalizing''\<rparr> evs
               else evs);
        evs = (if t = 82 then pushBus \<lparr>ev_t = t, bus = TimescaleDB, sev = ok,
                 msg = ''Derived signal: airflow_est computed from RPM + curve proxy''\<rparr> evs
               else evs);
        evs = (if t = 131 then pushBus \<lparr>ev_t = t, bus = TimescaleDB, sev = info,
                 msg = ''Running validation suite: bindings + KPI deps + view labels''\<rparr> evs
               else evs);
        evs = (if t = 148 then pushBus \<lparr>ev_t = t, bus = TimescaleDB, sev = ok,
                 msg = ''Validation passed (0 errors, 2 warnings)''\<rparr> evs else evs);
        evs = (if t = 162 then pushBus \<lparr>ev_t = t, bus = TimescaleDB, sev = ok,
                 msg = ''Ready to deploy: staging candidate v1.0''\<rparr> evs else evs)
      in evs)"

subsection \<open>Agent state projector\<close>

definition shouldLog :: "string \<Rightarrow> nat \<Rightarrow> bool" where
  "shouldLog a t =
     ((a = ''spec'' \<and> t \<in> set [10, 18, 26, 32]) \<or>
      (a = ''conn'' \<and> t \<in> set [40, 52, 68, 74]) \<or>
      (a = ''kpi'' \<and> t \<in> set [76, 90, 108, 120]) \<or>
      (a = ''view'' \<and> t \<in> set [104, 118, 132, 140]) \<or>
      (a = ''val'' \<and> t \<in> set [136, 148, 160]))"

text \<open>The nested conditional that picks the text of a log line.\<close>

definition logLine :: "string \<Rightarrow> nat \<Rightarrow> string" where
  "logLine a t =
     (if a = ''spec'' then
        (if t = 10 then ''Parsing prompt '' @ u_rarrow @ '' selecting template: CabinetCooling.EC2''
         else if t = 18 then ''Creating assets: Fan_A, Fan_B, Cabinet, PLC_Gateway''
         else if t = 26 then ''Setting parameters: variable_speed, monthly_kpis=true''
         else ''Manifest compiled (draft v1)'')
      else if a = ''conn'' then
        (if t = 40 then ''Browsing Modbus registers'' @ u_ellipsis
         else if t = 52 then ''Binding MQTT faults topic '' @ u_rarrow @ '' twin.faults''
         else if t = 68 then ''Creating rollups: 1s'' @ u_rarrow @ ''1m'' @ u_rarrow @ ''1h''
         else ''Bindings compiled (draft v1)'')
      else if a = ''kpi'' then
        (if t = 76 then ''Selecting KPI pack: Energy + Efficiency + Utilization + Risk''
         else if t = 90 then ''Defining monthly windows + baselines''
         else if t = 108 then ''Adding confidence scoring and thresholds''
         else ''KPI pack compiled (draft v1)'')
      else if a = ''view'' then
        (if t = 104 then ''Generating 3D layout + AR anchors''
         else if t = 118 then ''Placing labels: RPM, kW, Status''
         else if t = 132 then ''Exporting Web viewer + AR overlay spec''
         else ''Views compiled (draft v1)'')
      else if a = ''val'' then
        (if t = 136 then ''Validating dependencies: bindings'' @ u_rarrow @ ''kpis'' @ u_rarrow @ ''views''
         else if t = 148 then ''PASS: 0 errors, 2 warnings (units normalized)''
         else ''Ready for staging deploy'')
      else ''Log @ '' @ formatSec t)"

text \<open>The body of \<open>prev.map((a) => ...)\<close> in \<open>setAgents\<close>.\<close>

definition projectAgent :: "nat \<Rightarrow> Agent \<Rightarrow> Agent" where
  "projectAgent t a =
     (let
        specP = stageProgress (real t) (real specStart) (real specEnd);
        topoP = stageProgress (real t) (real topoStart) (real topoEnd);
        connP = stageProgress (real t) (real connStart) (real connEnd);
        derP = stageProgress (real t) (real derStart) (real derEnd);
        kpiP = stageProgress (real t) (real kpiStart) (real kpiEnd);
        viewP = stageProgress (real t) (real viewStart) (real viewEnd);
        valP = stageProgress (real t) (real valStart) (real valEnd);
        ps = (0, Queued);
        ps = (if aid a = ''spec''
              then (specP, computeStatus (real t) specP (real specStart) (real specEnd)) else ps);
        ps = (if aid a = ''topo''
              then (topoP, computeStatus (real t) topoP (real topoStart) (real topoEnd)) else ps);
        ps = (if aid a = ''conn''
              then (connP, computeStatus (real t) connP (real connStart) (real connEnd)) else ps);
        ps = (if aid a = ''der''
              then (derP, computeStatus (real t) derP (real derStart) (real derEnd)) else ps);
        ps = (if aid a = ''kpi''
              then (kpiP, computeStatus (real t) kpiP (real kpiStart) (real kpiEnd)) else ps);
        ps = (if aid a = ''view''
              then (viewP, computeStatus (real t) viewP (real viewStart) (real viewEnd)) else ps);
        ps = (if aid a = ''val''
              then (valP, computeStatus (real t) valP (real valStart) (real valEnd)) else ps);
        logs' = (if shouldLog (aid a) t
                 then slice_from (- 20)
                        (logs a @ [formatSec t @ '' '' @ u_bullet @ '' '' @ logLine (aid a) t])
                 else logs a)
      in a\<lparr>status := snd ps, progress := fst ps, logs := logs'\<rparr>)"

definition projectAgents :: "nat \<Rightarrow> Agent list \<Rightarrow> Agent list" where
  "projectAgents t prev = map (projectAgent t) prev"

subsection \<open>Artifact emitter\<close>

text \<open>The updater passed to \<open>setArtifacts\<close>: a copy of the store, six tests on the clock.\<close>

definition emitArtifacts :: "nat \<Rightarrow> ArtifactStore \<Rightarrow> ArtifactStore" where
  "emitArtifacts t prev =
     (let
        next = prev;
        next = (if t = specEnd then
                  (let v = version (manifest next) + 1
                   in next\<lparr>manifest := (manifest next)\<lparr>
                        version := v,
                        lastUpdatedSec := t,
                        summary := ''CabinetCooling.EC2 with Fan_A/Fan_B, PLC gateway, sensors.'',
                        diffLines :=
                          [(ok, ''+ Assets: Fan_A, Fan_B, Cabinet_A, PLC_Gateway''),
                           (ok, ''+ Relationships: Motor'' @ u_rarrow @ ''Fan, Fan'' @ u_rarrow
                                  @ ''Airflow'' @ u_rarrow @ ''CabinetTemp''),
                           (info, ''+ Defaults: variable_speed=true, reporting=monthly'')]\<rparr>\<rparr>)
                else next);
        next = (if t = connEnd then
                  (let v = version (bindings next) + 1
                   in next\<lparr>bindings := (bindings next)\<lparr>
                        version := v,
                        lastUpdatedSec := t,
                        summary := ''Mapped Modbus registers + MQTT faults; created rollups.'',
                        diffLines :=
                          [(ok, ''+ Bind: Fan_A.rpm '' @ u_larrow @ '' Modbus HR:40021''),
                           (ok, ''+ Bind: Fan_A.kW  '' @ u_larrow @ '' Modbus HR:40031 (normalized)''),
                           (ok, ''+ Bind: Cabinet.temp_C '' @ u_larrow @ '' HR:40110''),
                           (info, ''+ Subscribe: MQTT ebmpapst/cabinetA/faults/#'')]\<rparr>\<rparr>)
                else next);
        next = (if t = derEnd then
                  (let vB = version (bindings next) + 1
                   in next\<lparr>bindings := (bindings next)\<lparr>
                        version := vB,
                        lastUpdatedSec := t,
                        summary := ''Added derived airflow_est + unit normalization rules.'',
                        diffLines :=
                          [(ok, ''+ Derived: airflow_est '' @ u_larrow @ '' f(RPM, curve_proxy)''),
                           (warn, ''~ Unit rule: kW tags sometimes in W (auto-normalize)''),
                           (info, ''+ Quality: flatline/spike detection enabled'')]\<rparr>\<rparr>)
                else next);
        next = (if t = kpiEnd then
                  (let v = version (kpisPack next) + 1
                   in next\<lparr>kpisPack := (kpisPack next)\<lparr>
                        version := v,
                        lastUpdatedSec := t,
                        summary :=
                          ''Energy, efficiency vs curve, utilization, maintenance risk (monthly).'',
                        diffLines :=
                          [(ok, ''+ KPI: energy_kWh_month '' @ u_larrow @ '' '' @ u_Sigma
                                  @ ''(kW)*'' @ u_Delta @ ''t''),
                           (ok, ''+ KPI: efficiency_pct '' @ u_larrow
                                  @ '' airflow_est / power (normalized)''),
                           (ok, ''+ KPI: utilization_pct '' @ u_larrow @ '' time_in_band / total''),
                           (info, ''+ KPI: risk_pct '' @ u_larrow
                                  @ '' variance(power)+fault_rate proxy'')]\<rparr>\<rparr>)
                else next);
        next = (if t = viewEnd then
                  (let v = version (views next) + 1
                   in next\<lparr>views := (views next)\<lparr>
                        version := v,
                        lastUpdatedSec := t,
                        summary := ''Web 3D view + AR label overlays (RPM/kW/Status).'',
                        diffLines :=
                          [(ok, ''+ View: Cabinet_A overview scene''),
                           (ok, ''+ AR Label: Fan_A (RPM, kW, Status)''),
                           (ok, ''+ AR Label: Fan_B (RPM, kW, Status)''),
                           (info, ''+ Anchors: cabinet_faceplate, fan_housing'')]\<rparr>\<rparr>)
                else next);
        next = (if t = valEnd then
                  (let v = version (validation next) + 1
                   in next\<lparr>validation := (validation next)\<lparr>
                        version := v,
                        lastUpdatedSec := t,
                        summary := ''PASS: 0 errors, 2 warnings (unit normalization).'',
                        diffLines :=
                          [(ok, u_check @ '' Schema: manifest/bindings/kpis/views''),
                           (ok, u_check @ '' Dependencies: tags '' @ u_rarrow @ '' derived ''
                                  @ u_rarrow @ '' kpis '' @ u_rarrow @ '' overlays''),
                           (warn, u_warning
                                  @ '' Warning: kW tag unit inconsistent; normalized to kW''),
                           (warn, u_warning
                                  @ '' Warning: vibration missing; risk uses proxy'')]\<rparr>\<rparr>)
                else next)
      in next)"

subsection \<open>KPI projector\<close>

definition wobble :: "real \<Rightarrow> real \<Rightarrow> real" where
  "wobble t k = sin ((t / 8) * (k + 1)) * 0.6 + sin ((t / 17) * (k + 2)) * 0.25"

text \<open>The body of \<open>prevKpis.map((k) => ...)\<close> in \<open>setKpis\<close>.\<close>

definition projectKpi :: "nat \<Rightarrow> KPI \<Rightarrow> KPI" where
  "projectKpi t k =
     (let
        phase1 = clamp ((real t - 55) / 40) 0 1;
        phase2 = clamp ((real t - 95) / 45) 0 1;
        phase3 = clamp ((real t - 130) / 30) 0 1;
        uptimeTarget = 99.2;
        energyKW = 78.0;
        effPct = 86.0;
        utilPct = 72.0;
        riskPct = 8.0;
        conf = (\<lambda>base. math_round (lerp base 100 phase3));
        vc = (None, 0);
        vc = (if phase1 > 0 then
                (let
                   warm = phase1;
                   stable = phase2;
                   vc = (if kkey k = ''prod'' then
                           (Some (lerp 0 (uptimeTarget + wobble (real t) 0) stable),
                            math_round (lerp 0 70 warm))
                         else if kkey k = ''energy'' then
                           (Some (lerp 0 (energyKW + wobble (real t) 1) stable),
                            math_round (lerp 0 75 warm))
                         else if kkey k = ''eff'' then
                           (Some (lerp 0 (effPct + wobble (real t) 2) stable),
                            math_round (lerp 0 70 warm))
                         else if kkey k = ''util'' then
                           (Some (lerp 0 (utilPct + wobble (real t) 3) stable),
                            math_round (lerp 0 72 warm))
                         else if kkey k = ''risk'' then
                           (Some (lerp 0 (riskPct + \<bar>wobble (real t) 4\<bar> * 0.7) stable),
                            math_round (lerp 0 65 warm))
                         else vc)
                 in (fst vc, max (snd vc) (conf (real_of_int (snd vc)))))
              else vc);
        val = fst vc;
        last = (case kvalue k of Some x \<Rightarrow> x
                | None \<Rightarrow> (case val of Some y \<Rightarrow> y | None \<Rightarrow> 0));
        now = (case val of Some y \<Rightarrow> y | None \<Rightarrow> last);
        delta = now - last;
        trend' = (if \<bar>delta\<bar> < 0.15 then flat else if delta > 0 then up else down)
      in k\<lparr>kvalue := val, confidence := snd vc, trend := trend'\<rparr>)"

definition projectKpis :: "nat \<Rightarrow> KPI list \<Rightarrow> KPI list" where
  "projectKpis t prevKpis = map (projectKpi t) prevKpis"

subsection \<open>The component state and its initial value\<close>

text \<open>
  The clock \<open>t\<close> is the field \<open>tsec\<close>. The prompt text and the selections of the user
  interface are left out: no effect of the engine reads them.
\<close>

record Engine =
  tsec :: nat
  running :: bool
  agents :: "Agent list"
  artifacts :: ArtifactStore
  busEvents :: "BusEvent list"
  kpis :: "KPI list"
  deployStage :: DeployStage
  deployEnabled :: bool

definition baseAgents :: "Agent list" where
  "baseAgents =
     [\<lparr>aid = ''spec'', name = ''Spec Agent'', status = Queued, progress = 0,
       outputArtifacts = [''manifest''], logs = []\<rparr>,
      \<lparr>aid = ''topo'', name = ''Topology Agent'', status = Queued, progress = 0,
       outputArtifacts = [''manifest''], logs = []\<rparr>,
      \<lparr>aid = ''conn'', name = ''Connector Agent'', status = Queued, progress = 0,
       outputArtifacts = [''bindings''], logs = []\<rparr>,
      \<lparr>aid = ''der'', name = ''Derived Signal Agent'', status = Queued, progress = 0,
       outputArtifacts = [''bindings'', ''kpis''], logs = []\<rparr>,
      \<lparr>aid = ''kpi'', name = ''KPI Agent'', status = Queued, progress = 0,
       outputArtifacts = [''kpis''], logs = []\<rparr>,
      \<lparr>aid = ''view'', name = ''View Agent'', status = Queued, progress = 0,
       outputArtifacts = [''views''], logs = []\<rparr>,
      \<lparr>aid = ''val'', name = ''Validation Agent'', status = Queued, progress = 0,
       outputArtifacts = [''validation''], logs = []\<rparr>]"

definition baseArtifacts :: ArtifactStore where
  "baseArtifacts =
     \<lparr>manifest =
        \<lparr>key = ''manifest'', label = ''Twin Manifest'', kind = KManifest, version = 0,
         lastUpdatedSec = 0, summary = ''No manifest yet.'',
         diffLines = [(info, u_emdash @ '' awaiting spec compilation '' @ u_emdash)]\<rparr>,
      bindings =
        \<lparr>key = ''bindings'', label = ''Data Bindings'', kind = KBindings, version = 0,
         lastUpdatedSec = 0, summary = ''No bindings yet.'',
         diffLines = [(info, u_emdash @ '' awaiting connector mapping '' @ u_emdash)]\<rparr>,
      kpisPack =
        \<lparr>key = ''kpis'', label = ''KPIs Pack'', kind = KKpis, version = 0,
         lastUpdatedSec = 0, summary = ''No KPIs yet.'',
         diffLines = [(info, u_emdash @ '' awaiting KPI definitions '' @ u_emdash)]\<rparr>,
      views =
        \<lparr>key = ''views'', label = ''Views / AR Labels'', kind = KViews, version = 0,
         lastUpdatedSec = 0, summary = ''No views yet.'',
         diffLines = [(info, u_emdash @ '' awaiting view generation '' @ u_emdash)]\<rparr>,
      validation =
        \<lparr>key = ''validation'', label = ''Validation Report'', kind = KValidation, version = 0,
         lastUpdatedSec = 0, summary = ''Not validated.'',
         diffLines = [(info, u_emdash @ '' run validation to deploy '' @ u_emdash)]\<rparr>\<rparr>"

definition baseKpis :: "KPI list" where
  "baseKpis =
     [\<lparr>kkey = ''prod'', klabel = ''System Uptime'', unit = Some ''%'', kvalue = None,
       target = Some 99.0, trend = flat, confidence = 0\<rparr>,
      \<lparr>kkey = ''energy'', klabel = ''Energy Usage'', unit = Some ''kW'', kvalue = None,
       target = Some 75, trend = flat, confidence = 0\<rparr>,
      \<lparr>kkey = ''eff'', klabel = ''Efficiency vs Curve'', unit = Some ''%'', kvalue = None,
       target = Some 85, trend = flat, confidence = 0\<rparr>,
      \<lparr>kkey = ''util'', klabel = ''Load Utilization'', unit = Some ''%'', kvalue = None,
       target = Some 70, trend = flat, confidence = 0\<rparr>,
      \<lparr>kkey = ''risk'', klabel = ''Maintenance Risk'', unit = Some ''%'', kvalue = None,
       target = Some 10, trend = flat, confidence = 0\<rparr>]"

text \<open>The arguments of the \<open>useState\<close> calls.\<close>

definition initialState :: Engine where
  "initialState =
     \<lparr>tsec = 0, running = True, agents = baseAgents, artifacts = baseArtifacts,
      busEvents = [], kpis = baseKpis, deployStage = Draft, deployEnabled = False\<rparr>"

subsection \<open>The effects that depend on the clock\<close>

text \<open>
  Each \<open>useEffect\<close> with \<open>t\<close> among its dependencies, as a function of the state: the pause
  at the end, the bus script, the agent, artifact and deploy-gate effect, and the KPI
  effect. React runs them, in this order, after the first render and after every render
  in which \<open>t\<close> has changed. They write disjoint fields.
\<close>

definition pauseAtEnd :: "Engine \<Rightarrow> Engine" where
  "pauseAtEnd s = (if tsec s \<ge> duration then s\<lparr>running := False\<rparr> else s)"

definition busEffect :: "Engine \<Rightarrow> Engine" where
  "busEffect s = s\<lparr>busEvents := busActivity (tsec s) (busEvents s)\<rparr>"

definition agentEffect :: "Engine \<Rightarrow> Engine" where
  "agentEffect s =
     s\<lparr>agents := projectAgents (tsec s) (agents s),
       artifacts := emitArtifacts (tsec s) (artifacts s),
       deployEnabled := (if tsec s \<ge> deployReady then True else deployEnabled s)\<rparr>"

definition kpiEffect :: "Engine \<Rightarrow> Engine" where
  "kpiEffect s = s\<lparr>kpis := projectKpis (tsec s) (kpis s)\<rparr>"

definition effects :: "Engine \<Rightarrow> Engine" where
  "effects s = kpiEffect (agentEffect (busEffect (pauseAtEnd s)))"

text \<open>
  \<open>setT(v)\<close>: a render with the new clock, and the effects only if the clock has changed
  (React compares the dependencies of an effect with those of the previous render).
\<close>

definition setT :: "nat \<Rightarrow> Engine \<Rightarrow> Engine" where
  "setT v s = (if v = tsec s then s else effects (s\<lparr>tsec := v\<rparr>))"

subsection \<open>Commands\<close>

text \<open>The callback of the interval timer, which exists only while \<open>running\<close> holds.\<close>

definition tick :: "Engine \<Rightarrow> Engine" where
  "tick s =
     (if running s
      then setT (if tsec s \<ge> duration then duration else tsec s + 1) s
      else s)"

definition resetAgents :: "Agent list" where
  "resetAgents =
     [\<lparr>aid = ''spec'', name = ''Spec Agent'', status = Queued, progress = 0,
       outputArtifacts = [''manifest''], logs = []\<rparr>,
      \<lparr>aid = ''topo'', name = ''Topology Agent'', status = Queued, progress = 0,
       outputArtifacts = [''manifest''], logs = []\<rparr>,
      \<lparr>aid = ''conn'', name = ''Connector Agent'', status = Queued, progress = 0,
       outputArtifacts = [''bindings''], logs = []\<rparr>,
      \<lparr>aid = ''der'', name = ''Derived Signal Agent'', status = Queued, progress = 0,
       outputArtifacts = [''bindings'', ''kpis''], logs = []\<rparr>,
      \<lparr>aid = ''kpi'', name = ''KPI Agent'', status = Queued, progress = 0,
       outputArtifacts = [''kpis''], logs = []\<rparr>,
      \<lparr>aid = ''view'', name = ''View Agent'', status = Queued, progress = 0,
       outputArtifacts = [''views''], logs = []\<rparr>,
      \<lparr>aid = ''val'', name = ''Validation Agent'', status = Queued, progress = 0,
       outputArtifacts = [''validation''], logs = []\<rparr>]"

definition resetArtifacts :: ArtifactStore where
  "resetArtifacts =
     \<lparr>manifest =
        \<lparr>key = ''manifest'', label = ''Twin Manifest'', kind = KManifest, version = 0,
         lastUpdatedSec = 0, summary = ''No manifest yet.'',
         diffLines = [(info, u_emdash @ '' awaiting spec compilation '' @ u_emdash)]\<rparr>,
      bindings =
        \<lparr>key = ''bindings'', label = ''Data Bindings'', kind = KBindings, version = 0,
         lastUpdatedSec = 0, summary = ''No bindings yet.'',
         diffLines = [(info, u_emdash @ '' awaiting connector mapping '' @ u_emdash)]\<rparr>,
      kpisPack =
        \<lparr>key = ''kpis'', label = ''KPIs Pack'', kind = KKpis, version = 0,
         lastUpdatedSec = 0, summary = ''No KPIs yet.'',
         diffLines = [(info, u_emdash @ '' awaiting KPI definitions '' @ u_emdash)]\<rparr>,
      views =
        \<lparr>key = ''views'', label = ''Views / AR Labels'', kind = KViews, version = 0,
         lastUpdatedSec = 0, summary = ''No views yet.'',
         diffLines = [(info, u_emdash @ '' awaiting view generation '' @ u_emdash)]\<rparr>,
      validation =
        \<lparr>key = ''validation'', label = ''Validation Report'', kind = KValidation, version = 0,
         lastUpdatedSec = 0, summary = ''Not validated.'',
         diffLines = [(info, u_emdash @ '' run validation to deploy '' @ u_emdash)]\<rparr>\<rparr>"

definition resetKpis :: "KPI list" where
  "resetKpis =
     [\<lparr>kkey = ''prod'', klabel = ''System Uptime'', unit = Some ''%'', kvalue = None,
       target = Some 99.0, trend = flat, confidence = 0\<rparr>,
      \<lparr>kkey = ''energy'', klabel = ''Energy Usage'', unit = Some ''kW'', kvalue = None,
       target = Some 75, trend = flat, confidence = 0\<rparr>,
      \<lparr>kkey = ''eff'', klabel = ''Efficiency vs Curve'', unit = Some ''%'', kvalue = None,
       target = Some 85, trend = flat, confidence = 0\<rparr>,
      \<lparr>kkey = ''util'', klabel = ''Load Utilization'', unit = Some ''%'', kvalue = None,
       target = Some 70, trend = flat, confidence = 0\<rparr>,
      \<lparr>kkey = ''risk'', klabel = ''Maintenance Risk'', unit = Some ''%'', kvalue = None,
       target = Some 10, trend = flat, confidence = 0\<rparr>]"

text \<open>
  \<open>resetDemo\<close>: every store is overwritten by a literal of its own, the clock is set to 0,
  and the effects run on the new stores when the clock was not 0 before.
\<close>

definition resetDemo :: "Engine \<Rightarrow> Engine" where
  "resetDemo s =
     setT 0 (s\<lparr>running := True, deployStage := Draft, deployEnabled := False,
              busEvents := [], agents := resetAgents, artifacts := resetArtifacts,
              kpis := resetKpis\<rparr>)"

definition promote :: "Engine \<Rightarrow> Engine" where
  "promote s =
     (if \<not> deployEnabled s then s
      else if deployStage s = Draft then s\<lparr>deployStage := Staging\<rparr>
      else if deployStage s = Staging then s\<lparr>deployStage := Prod\<rparr>
      else s)"

text \<open>
  The buttons and the timer. \<open>JumpToDeploy\<close> and \<open>JumpToKpis\<close> are the two quick controls
  (\<open>setT(Math.max(t, 160))\<close>, \<open>setT(Math.max(t, 120))\<close>), \<open>TogglePlay\<close> the Pause/Play
  button, \<open>BackToDraft\<close> the button that sets the displayed stage to Draft.
\<close>

datatype Command = Tick | TogglePlay | Reset | JumpToDeploy | JumpToKpis | Promote | BackToDraft

fun step :: "Command \<Rightarrow> Engine \<Rightarrow> Engine" where
  "step Tick s = tick s"
| "step TogglePlay s = s\<lparr>running := \<not> running s\<rparr>"
| "step Reset s = resetDemo s"
| "step JumpToDeploy s = setT (max (tsec s) 160) s"
| "step JumpToKpis s = setT (max (tsec s) 120) s"
| "step Promote s = promote s"
| "step BackToDraft s = s\<lparr>deployStage := Draft\<rparr>"

text \<open>
  The state after the first render: the effects have run once, at \<open>t = 0\<close>. The entry
  point wraps the component in \<open>React.StrictMode\<close>, which in development runs the effects
  of the first render a second time; at \<open>t = 0\<close> they change nothing (lemma
  \<open>effects_initial\<close> below), so the state after mounting is the same.
\<close>

definition mounted :: Engine where
  "mounted = effects initialState"

text \<open>The state after a sequence of commands, and after \<open>n\<close> ticks of the timer.\<close>

definition exec :: "Command list \<Rightarrow> Engine" where
  "exec cs = foldl (\<lambda>s c. step c s) mounted cs"

definition run :: "nat \<Rightarrow> Engine" where
  "run n = exec (replicate n Tick)"

section \<open>The scripted schedule, as the specification words it\<close>

text \<open>
  The definitions of this section are not part of the embedding. They restate the
  tables of the specification, or name a table of the source on its own, and the
  theorems below compare the embedded code with them.
\<close>

text \<open>The kind of artifact bumped at each of the six thresholds of the artifact emitter.\<close>

definition bumpedKind :: "nat \<Rightarrow> ArtifactKind option" where
  "bumpedKind t =
     (if t = 32 then Some KManifest
      else if t = 74 then Some KBindings
      else if t = 95 then Some KBindings
      else if t = 120 then Some KKpis
      else if t = 140 then Some KViews
      else if t = 160 then Some KValidation
      else None)"

text \<open>The artifact of a kind in the store.\<close>

fun artifactOf :: "ArtifactKind \<Rightarrow> ArtifactStore \<Rightarrow> Artifact" where
  "artifactOf KManifest a = manifest a"
| "artifactOf KBindings a = bindings a"
| "artifactOf KKpis a = kpisPack a"
| "artifactOf KViews a = views a"
| "artifactOf KValidation a = validation a"

text \<open>The timestamps of the bus script.\<close>

definition busTimes :: "nat list" where
  "busTimes = [2, 8, 33, 38, 44, 52, 60, 68, 76, 82, 131, 148, 162]"

text \<open>The milestone timestamps of each agent: the arrays of the \<open>shouldLog\<close> test.\<close>

definition milestones :: "string \<Rightarrow> nat list" where
  "milestones a =
     (if a = ''spec'' then [10, 18, 26, 32]
      else if a = ''conn'' then [40, 52, 68, 74]
      else if a = ''kpi'' then [76, 90, 108, 120]
      else if a = ''view'' then [104, 118, 132, 140]
      else if a = ''val'' then [136, 148, 160]
      else [])"

text \<open>The seven agent ids, in the order of the agent list.\<close>

definition agentIds :: "string list" where
  "agentIds = [''spec'', ''topo'', ''conn'', ''der'', ''kpi'', ''view'', ''val'']"

text \<open>
  A log entry, the template \<open>`${formatSec(t)} \<bullet> ${line}`\<close>, and the log of an agent
  after \<open>n\<close> ticks if one entry is appended at each milestone up to \<open>n\<close>.
\<close>

definition logEntry :: "string \<Rightarrow> nat \<Rightarrow> string" where
  "logEntry a t = formatSec t @ '' '' @ u_bullet @ '' '' @ logLine a t"

definition scriptedLogs :: "string \<Rightarrow> nat \<Rightarrow> string list" where
  "scriptedLogs a n = map (logEntry a) (filter (\<lambda>t. t \<le> n) (milestones a))"

text \<open>The five KPI keys, in the order of the KPI list.\<close>

definition kpiKeys :: "string list" where
  "kpiKeys = [''prod'', ''energy'', ''eff'', ''util'', ''risk'']"

text \<open>
  The invariant of the logs: the log of an agent at clock \<open>T\<close> holds the entries of some
  of its milestones up to \<open>T\<close>, in increasing order of time; and the clock never passes
  the duration.
\<close>

definition logs_ok :: "nat \<Rightarrow> Agent \<Rightarrow> bool" where
  "logs_ok T a \<longleftrightarrow>
     (\<exists>ms. logs a = map (logEntry (aid a)) ms \<and> sorted_wrt (<) ms \<and>
           set ms \<subseteq> set (milestones (aid a)) \<and> (\<forall>m \<in> set ms. m \<le> T))"


text \<open>
  The finite binary64 numbers: a significand below \<open>2\<^sup>5\<^sup>3\<close> in magnitude times a power of
  two between \<open>2\<^sup>-\<^sup>1\<^sup>0\<^sup>7\<^sup>4\<close> and \<open>2\<^sup>9\<^sup>7\<^sup>1\<close>.
\<close>

definition is_double :: "real \<Rightarrow> bool" where
  "is_double x \<longleftrightarrow>
     (\<exists>m e. x = of_int m * 2 powr of_int e \<and> \<bar>m\<bar> < 2 ^ 53 \<and> - 1074 \<le> e \<and> e \<le> 971)"

text \<open>The invariant of the agent list: the seven agents, none of them failed.\<close>

definition agents_ok :: "Agent list \<Rightarrow> bool" where
  "agents_ok xs \<longleftrightarrow> map aid xs = agentIds \<and> (\<forall>a \<in> set xs. status a \<noteq> Failed)"

section \<open>Rounding to double precision\<close>

lemma round_even_bounds: "\<lfloor>y\<rfloor> \<le> round_even y \<and> round_even y \<le> \<lfloor>y\<rfloor> + 1"
  by (simp add: round_even_def Let_def)

lemma round_even_of_int [simp]: "round_even (of_int n) = n"
  by (simp add: round_even_def Let_def)

lemma round_even_nonneg: "0 \<le> y \<Longrightarrow> 0 \<le> round_even y"
  using round_even_bounds [of y] by (simp add: order_trans [of 0 "\<lfloor>y\<rfloor>"])

lemma round_even_mono:
  assumes "x \<le> y"
  shows "round_even x \<le> round_even y"
proof (cases "\<lfloor>x\<rfloor> = \<lfloor>y\<rfloor>")
  case True
  with assms show ?thesis
    by (auto simp add: round_even_def Let_def)
next
  case False
  with assms have "\<lfloor>x\<rfloor> < \<lfloor>y\<rfloor>"
    using floor_mono [of x y] by simp
  then show ?thesis
    using round_even_bounds [of x] round_even_bounds [of y] by simp
qed

lemma fl64_zero [simp]: "fl64 0 = 0"
  using round_even_of_int [of 0] by (simp add: fl64_def)

lemma floor_log2_eq:
  assumes "2 powr of_int e \<le> x" "x < 2 powr of_int (e + 1)"
  shows "\<lfloor>log 2 x\<rfloor> = e"
proof -
  have pos: "0 < x"
    using assms(1) powr_gt_zero [of 2 "of_int e"] by linarith
  have "of_int e \<le> log 2 x"
    using assms(1) pos by (simp add: le_log_iff)
  moreover have "log 2 x < of_int (e + 1)"
    using assms(2) pos by (simp add: log_less_iff)
  ultimately show ?thesis by (simp add: floor_unique)
qed

lemma floor_log2_bounds:
  assumes "0 < x"
  shows "2 powr of_int \<lfloor>log 2 x\<rfloor> \<le> x \<and> x < 2 powr of_int (\<lfloor>log 2 x\<rfloor> + 1)"
proof -
  have a: "2 powr of_int \<lfloor>log 2 x\<rfloor> \<le> x"
    by (subst le_log_iff [symmetric]) (use assms in simp_all)
  have "log 2 x < of_int (\<lfloor>log 2 x\<rfloor> + 1)" by linarith
  then have "x < 2 powr of_int (\<lfloor>log 2 x\<rfloor> + 1)"
    by (subst (asm) log_less_iff) (use assms in simp_all)
  with a show ?thesis by simp
qed

lemma round_even_numeral [simp]: "round_even (numeral k) = numeral k"
  using round_even_of_int [of "numeral k"] by simp

lemma round_even_one [simp]: "round_even 1 = 1"
  using round_even_of_int [of 1] by simp

lemma two_powr_int: "0 \<le> n \<Longrightarrow> (2::real) powr of_int n = of_int (2 ^ nat n)"
  by (simp add: powr_realpow [symmetric])

lemma two_powr_neg_nat: "(2::real) powr of_int (- int N) = 1 / 2 ^ N"
  by (simp add: powr_minus powr_realpow divide_inverse)

lemma two_powr_diff_nat: "(2::real) powr of_int (52 - int N) = 2 ^ 52 / 2 ^ N"
proof -
  have "(2::real) powr of_int (52 - int N) = 2 powr (52 - real N)" by simp
  also have "\<dots> = 2 powr 52 / 2 powr real N" by (rule powr_diff)
  also have "\<dots> = 2 ^ 52 / 2 ^ N" by (simp add: powr_realpow)
  finally show ?thesis .
qed

lemma fl64_scaled:
  assumes "2 ^ 52 \<le> x * 2 ^ N" "x * 2 ^ N < 2 ^ 53" "N \<le> 1074"
  shows "fl64 x = of_int (round_even (x * 2 ^ N)) / 2 ^ N"
proof -
  have pos: "0 < x"
  proof -
    have "(0::real) < 2 ^ 52" by simp
    with assms(1) have "0 < x * 2 ^ N" by linarith
    then show ?thesis by (simp add: zero_less_mult_iff)
  qed
  have lo: "2 powr of_int (52 - int N) \<le> x"
    unfolding two_powr_diff_nat using assms(1) by (simp add: divide_le_eq)
  have "(2::real) powr of_int (52 - int N + 1) = 2 ^ 53 / 2 ^ N"
  proof -
    have "(2::real) powr of_int (52 - int N + 1) = 2 powr (53 - real N)" by simp
    also have "\<dots> = 2 powr 53 / 2 powr real N" by (rule powr_diff)
    also have "\<dots> = 2 ^ 53 / 2 ^ N" by (simp add: powr_realpow)
    finally show ?thesis .
  qed
  then have hi: "x < 2 powr of_int (52 - int N + 1)"
    using assms(2) by (simp add: less_divide_eq)
  have "\<lfloor>log 2 x\<rfloor> = 52 - int N"
    using lo hi by (rule floor_log2_eq)
  then have u: "ulp_exp x = - int N"
    using pos assms(3) by (simp add: ulp_exp_def)
  show ?thesis
    unfolding fl64_def u two_powr_neg_nat by simp
qed

lemma fl64_one [simp]: "fl64 1 = 1"
  using fl64_scaled [of 1 52] by simp

lemma fl64_hundred [simp]: "fl64 100 = 100"
  using fl64_scaled [of 100 46] by simp

lemma fl64_nonneg: "0 \<le> x \<Longrightarrow> 0 \<le> fl64 x"
  unfolding fl64_def by (intro mult_nonneg_nonneg) (simp_all add: round_even_nonneg)

lemma ulp_exp_mono:
  assumes "0 < x" "x \<le> y"
  shows "ulp_exp x \<le> ulp_exp y"
proof -
  have "log 2 x \<le> log 2 y" using assms by simp
  then have "\<lfloor>log 2 x\<rfloor> \<le> \<lfloor>log 2 y\<rfloor>" by (rule floor_mono)
  then show ?thesis using assms by (simp add: ulp_exp_def)
qed

lemma round_even_powr_ratio:
  assumes "k' \<le> k"
  shows "of_int (round_even (2 powr of_int k / 2 powr of_int k')) * 2 powr of_int k' = (2::real) powr of_int k"
proof -
  have "(2::real) powr of_int k / 2 powr of_int k' = 2 powr of_int (k - k')"
    by (simp add: powr_diff)
  also have "\<dots> = of_int (2 ^ nat (k - k'))"
    using assms by (intro two_powr_int) simp
  finally have "round_even ((2::real) powr of_int k / 2 powr of_int k') = 2 ^ nat (k - k')"
    by (simp only: round_even_of_int)
  then have "of_int (round_even ((2::real) powr of_int k / 2 powr of_int k')) * (2::real) powr of_int k'
      = 2 powr of_int (k - k') * 2 powr of_int k'"
    using assms two_powr_int [of "k - k'"] by simp
  also have "\<dots> = 2 powr of_int k"
    by (simp add: powr_add [symmetric])
  finally show ?thesis .
qed

lemma fl64_mono:
  assumes "0 \<le> x" "x \<le> y"
  shows "fl64 x \<le> fl64 y"
proof (cases "x = 0")
  case True
  then show ?thesis using assms fl64_nonneg [of y] by simp
next
  case False
  with assms have pos: "0 < x" "0 < y" by simp_all
  have le: "ulp_exp x \<le> ulp_exp y" using pos(1) assms(2) by (rule ulp_exp_mono)
  show ?thesis
  proof (cases "ulp_exp x = ulp_exp y")
    case True
    have "x / 2 powr of_int (ulp_exp y) \<le> y / 2 powr of_int (ulp_exp y)"
      using assms(2) by (intro divide_right_mono) simp_all
    then have "round_even (x / 2 powr of_int (ulp_exp y)) \<le> round_even (y / 2 powr of_int (ulp_exp y))"
      by (rule round_even_mono)
    then show ?thesis
      unfolding fl64_def True by (intro mult_right_mono) simp_all
  next
    case False
    with le have lt: "ulp_exp x < ulp_exp y" by simp
    define B :: real where "B = 2 powr of_int (ulp_exp y + 52)"
    have ux: "ulp_exp x = max \<lfloor>log 2 x\<rfloor> (- 1022) - 52"
      and uy: "ulp_exp y = max \<lfloor>log 2 y\<rfloor> (- 1022) - 52"
      using pos by (simp_all add: ulp_exp_def)
    have ey: "ulp_exp y + 52 = \<lfloor>log 2 y\<rfloor>"
      using lt unfolding ux uy by arith
    have ex: "\<lfloor>log 2 x\<rfloor> + 1 \<le> ulp_exp y + 52"
      using lt unfolding ux uy by arith
    have By: "B \<le> y"
      unfolding B_def ey using floor_log2_bounds [OF pos(2)] by simp
    have "x < 2 powr of_int (\<lfloor>log 2 x\<rfloor> + 1)"
      using floor_log2_bounds [OF pos(1)] by simp
    also have "\<dots> \<le> B"
      unfolding B_def using ex by (simp del: of_int_add)
    finally have xB: "x \<le> B" by simp
    have "fl64 x \<le> of_int (round_even (B / 2 powr of_int (ulp_exp x))) * 2 powr of_int (ulp_exp x)"
      unfolding fl64_def using xB
      by (intro mult_right_mono iffD2 [OF of_int_le_iff] round_even_mono divide_right_mono) simp_all
    also have "\<dots> = B"
      unfolding B_def using lt by (intro round_even_powr_ratio) simp
    also have "\<dots> = of_int (round_even (B / 2 powr of_int (ulp_exp y))) * 2 powr of_int (ulp_exp y)"
      unfolding B_def by (intro round_even_powr_ratio [symmetric]) simp
    also have "\<dots> \<le> fl64 y"
      unfolding fl64_def using By
      by (intro mult_right_mono iffD2 [OF of_int_le_iff] round_even_mono divide_right_mono) simp_all
    finally show ?thesis .
  qed
qed

lemma fl64_23_40: "fl64 (23 / 40) = 5179139571476070 / 2 ^ 53"
  using fl64_scaled [of "23 / 40" 53] by (simp add: round_even_def Let_def)

lemma fl64_23_40_percent: "fl64 (5179139571476070 / 2 ^ 53 * 100) = 8092405580431359 / 2 ^ 47"
  using fl64_scaled [of "5179139571476070 / 2 ^ 53 * 100" 47] by (simp add: round_even_def Let_def)

lemma fl64_small_integers: "fl64 23 = 23" "fl64 40 = 40" "fl64 3 = 3" "fl64 44 = 44"
  using fl64_scaled [of 23 48] fl64_scaled [of 40 47] fl64_scaled [of 3 51] fl64_scaled [of 44 47]
  by simp_all

lemma stageProgress_inside:
  assumes "start \<le> t" "t \<le> end'" "fl64 (t - start) = a" "fl64 (end' - start) = b"
    "fl64 (a / b) = c" "0 \<le> c" "c \<le> 1" "fl64 (c * 100) = d"
  shows "stageProgress t start end' = math_round d"
  using assms by (simp add: stageProgress_def clamp_def)

lemma stageProgress_78_55_95: "stageProgress 78 55 95 = 57"
proof -
  have "stageProgress 78 55 95 = math_round (8092405580431359 / 2 ^ 47)"
    by (rule stageProgress_inside [where a = 23 and b = 40, OF _ _ _ _ fl64_23_40 _ _ fl64_23_40_percent])
       (simp_all add: fl64_small_integers)
  then show ?thesis by (simp add: math_round_def)
qed

lemma fl64_3_44: "fl64 (3 / 44) = 4913017775313268 / 2 ^ 56"
  using fl64_scaled [of "3 / 44" 56] by (simp add: round_even_def Let_def)

lemma fl64_3_44_percent: "fl64 (4913017775313268 / 2 ^ 56 * 100) = 7676590273926981 / 2 ^ 50"
  using fl64_scaled [of "4913017775313268 / 2 ^ 56 * 100" 50] by (simp add: round_even_def Let_def)

lemma stageProgress_33_30_74: "stageProgress 33 30 74 = 7"
proof -
  have "stageProgress 33 30 74 = math_round (7676590273926981 / 2 ^ 50)"
    by (rule stageProgress_inside [where a = 3 and b = 44, OF _ _ _ _ fl64_3_44 _ _ fl64_3_44_percent])
       (simp_all add: fl64_small_integers)
  then show ?thesis by (simp add: math_round_def)
qed

lemma is_double_grid:
  assumes "is_double a"
  shows "\<exists>k::int. a = of_int k * 2 powr (- 1074)"
proof -
  from assms obtain m e where a: "a = of_int m * 2 powr of_int e" and e: "- 1074 \<le> e"
    unfolding is_double_def by blast
  have "(2::real) powr of_int e = 2 powr of_int (e + 1074) * 2 powr (- 1074)"
    by (simp add: powr_add [symmetric])
  also have "\<dots> = of_int (2 ^ nat (e + 1074)) * 2 powr (- 1074)"
    using e two_powr_int [of "e + 1074"] by simp
  finally have "a = of_int (m * 2 ^ nat (e + 1074)) * 2 powr (- 1074)"
    unfolding a by simp
  then show ?thesis by blast
qed

lemma fl64_least: "fl64 (2 powr (- 1074)) = 2 powr (- 1074)"
proof -
  have "ulp_exp (2 powr (- 1074)) = - 1074"
    by (simp add: ulp_exp_def)
  then show ?thesis
    by (simp add: fl64_def)
qed

lemma fl64_difference_pos:
  assumes "is_double a" "is_double b" "a < b"
  shows "0 < fl64 (b - a)"
proof -
  from is_double_grid [OF assms(1)] obtain ka :: int where a: "a = of_int ka * 2 powr (- 1074)"
    by blast
  from is_double_grid [OF assms(2)] obtain kb :: int where b: "b = of_int kb * 2 powr (- 1074)"
    by blast
  have "ka < kb"
    using assms(3) unfolding a b by (simp add: mult_less_cancel_right)
  then have "1 \<le> real_of_int (kb - ka)" by simp
  then have "1 * (2::real) powr (- 1074) \<le> of_int (kb - ka) * 2 powr (- 1074)"
    by (intro mult_right_mono) simp_all
  then have "(2::real) powr (- 1074) \<le> b - a"
    unfolding a b by (simp add: algebra_simps)
  then have "fl64 (2 powr (- 1074)) \<le> fl64 (b - a)"
    by (intro fl64_mono) simp_all
  then show ?thesis
    unfolding fl64_least using powr_gt_zero [of 2 "- 1074"] by linarith
qed

lemma is_double_nat: "n < 2 ^ 53 \<Longrightarrow> is_double (real n)"
  unfolding is_double_def
  by (intro exI [of _ "int n"] exI [of _ 0]) simp

section \<open>Stage progress\<close>

lemma math_round_mono: "x \<le> y \<Longrightarrow> math_round x \<le> math_round y"
  unfolding math_round_def by (intro floor_mono) simp

lemma clamp01_mono: "x \<le> y \<Longrightarrow> clamp x 0 1 \<le> clamp y 0 1"
  unfolding clamp_def by auto

lemma clamp01_bounds: "0 \<le> clamp x 0 1 \<and> clamp x 0 1 \<le> 1"
  unfolding clamp_def by auto

lemma rounded_percent_bounds:
  assumes "0 \<le> c" "c \<le> 1"
  shows "0 \<le> math_round (fl64 (c * 100)) \<and> math_round (fl64 (c * 100)) \<le> 100"
proof -
  have "fl64 0 \<le> fl64 (c * 100)" "fl64 (c * 100) \<le> fl64 100"
    using assms by (intro fl64_mono; simp)+
  then have "math_round 0 \<le> math_round (fl64 (c * 100))"
    "math_round (fl64 (c * 100)) \<le> math_round 100"
    by (simp_all add: math_round_mono)
  moreover have "math_round 0 = 0" "math_round 100 = 100"
    by (simp_all add: math_round_def)
  ultimately show ?thesis by simp
qed

lemma stageProgress_bounds: "0 \<le> stageProgress t s e \<and> stageProgress t s e \<le> 100"
  unfolding stageProgress_def
  using rounded_percent_bounds [OF clamp01_bounds [THEN conjunct1] clamp01_bounds [THEN conjunct2]]
  by auto

lemma stageProgress_mono:
  assumes "s < e" "t1 \<le> t2"
  shows "stageProgress t1 s e \<le> stageProgress t2 s e"
proof (cases "t1 < s")
  case True
  then show ?thesis
    using stageProgress_bounds [of t2 s e] by (simp add: stageProgress_def)
next
  case before: False
  show ?thesis
  proof (cases "t2 > e")
    case True
    then show ?thesis
      using stageProgress_bounds [of t1 s e] assms before by (simp add: stageProgress_def)
  next
    case False
    have width: "0 \<le> fl64 (e - s)"
      using assms(1) by (intro fl64_nonneg) simp
    have diff: "fl64 (t1 - s) \<le> fl64 (t2 - s)"
      using before assms(2) by (intro fl64_mono) simp_all
    have diff0: "0 \<le> fl64 (t1 - s)"
      using before by (intro fl64_nonneg) simp
    have "fl64 (t1 - s) / fl64 (e - s) \<le> fl64 (t2 - s) / fl64 (e - s)"
      using diff width by (rule divide_right_mono)
    moreover have "0 \<le> fl64 (t1 - s) / fl64 (e - s)"
      using diff0 width by (rule divide_nonneg_nonneg)
    ultimately have "fl64 (fl64 (t1 - s) / fl64 (e - s)) \<le> fl64 (fl64 (t2 - s) / fl64 (e - s))"
      by (intro fl64_mono)
    then have "clamp (fl64 (fl64 (t1 - s) / fl64 (e - s))) 0 1 * 100
               \<le> clamp (fl64 (fl64 (t2 - s) / fl64 (e - s))) 0 1 * 100"
      by (intro mult_right_mono clamp01_mono) simp_all
    moreover have "0 \<le> clamp (fl64 (fl64 (t1 - s) / fl64 (e - s))) 0 1 * 100"
      using clamp01_bounds [of "fl64 (fl64 (t1 - s) / fl64 (e - s))"] by simp
    ultimately have "math_round (fl64 (clamp (fl64 (fl64 (t1 - s) / fl64 (e - s))) 0 1 * 100))
        \<le> math_round (fl64 (clamp (fl64 (fl64 (t2 - s) / fl64 (e - s))) 0 1 * 100))"
      by (intro math_round_mono) (rule fl64_mono)
    then show ?thesis
      using before False assms by (simp add: stageProgress_def)
  qed
qed

lemma stageProgress_at_start: "s < e \<Longrightarrow> stageProgress s s e = 0"
  by (simp add: stageProgress_def clamp_def math_round_def)

lemma stageProgress_at_end:
  assumes "is_double s" "is_double e" "s < e"
  shows "stageProgress e s e = 100"
proof -
  have "fl64 (e - s) / fl64 (e - s) = 1"
    using fl64_difference_pos [OF assms] by simp
  then show ?thesis
    using assms(3) by (simp add: stageProgress_def clamp_def math_round_def)
qed

text \<open>
  Claim C7. For every pair of doubles \<open>start < end\<close>, \<open>stageProgress\<close> is
  monotonically non-decreasing in \<open>t\<close>, lies between 0 and 100, is exactly 0 at
  \<open>t = start\<close> and exactly 100 at \<open>t = end\<close>. It holds for every \<open>t\<close>, so in particular on
  \<open>[0, duration]\<close>. The function is the one of the source, with the rounding of doubles
  after each operation; the bound \<open>2\<^sup>1\<^sup>0\<^sup>2\<^sup>2\<close> on \<open>start\<close> and \<open>end\<close> keeps their difference
  finite, where \<open>fl64\<close> is the rounding of the source.
\<close>

theorem stageProgress_monotone_bounded:
  "is_double start \<Longrightarrow> is_double end' \<Longrightarrow> \<bar>start\<bar> \<le> 2 ^ 1022 \<Longrightarrow> \<bar>end'\<bar> \<le> 2 ^ 1022 \<Longrightarrow>
   start < end' \<Longrightarrow>
     (\<forall>t1 t2. t1 \<le> t2 \<longrightarrow> stageProgress t1 start end' \<le> stageProgress t2 start end') \<and>
     0 \<le> stageProgress t start end' \<and> stageProgress t start end' \<le> 100 \<and>
     stageProgress start start end' = 0 \<and> stageProgress end' start end' = 100"
  using stageProgress_mono [of start end'] stageProgress_bounds [of t start end']
    stageProgress_at_start [of start end'] stageProgress_at_end [of start end']
  by blast

theorem stageProgress_monotone_bounded_witness:
  "is_double 55 \<and> is_double 95 \<and> \<bar>55 :: real\<bar> \<le> 2 ^ 1022 \<and> \<bar>95 :: real\<bar> \<le> 2 ^ 1022 \<and>
   (55 :: real) < 95 \<and>
   stageProgress 78 55 95 \<le> stageProgress 79 55 95 \<and>
   0 \<le> stageProgress 78 55 95 \<and> stageProgress 78 55 95 \<le> 100 \<and>
   stageProgress 55 55 95 = 0 \<and> stageProgress 95 55 95 = 100 \<and>
   stageProgress 78 55 95 = 57"
proof -
  have d: "is_double 55" "is_double 95"
    using is_double_nat [of 55] is_double_nat [of 95] by simp_all
  have b: "\<bar>55 :: real\<bar> \<le> 2 ^ 1022" "\<bar>95 :: real\<bar> \<le> 2 ^ 1022"
    by simp_all
  have window: "(55 :: real) < 95" by simp
  note at78 = stageProgress_monotone_bounded [OF d b window, of 78]
  from at78 have "stageProgress 78 55 95 \<le> stageProgress 79 55 95" by simp
  with at78 d b window stageProgress_78_55_95 show ?thesis by simp
qed

section \<open>The engine under the timer\<close>

lemmas effect_defs = effects_def kpiEffect_def agentEffect_def busEffect_def pauseAtEnd_def

lemma effects_tsec [simp]: "tsec (effects s) = tsec s"
  by (simp add: effect_defs)

lemma effects_running [simp]: "running (effects s) = (running s \<and> tsec s < duration)"
  by (auto simp add: effect_defs)

lemma effects_agents [simp]: "agents (effects s) = projectAgents (tsec s) (agents s)"
  by (simp add: effect_defs)

lemma effects_artifacts [simp]: "artifacts (effects s) = emitArtifacts (tsec s) (artifacts s)"
  by (simp add: effect_defs)

lemma effects_busEvents [simp]: "busEvents (effects s) = busActivity (tsec s) (busEvents s)"
  by (simp add: effect_defs)

lemma effects_kpis [simp]: "kpis (effects s) = projectKpis (tsec s) (kpis s)"
  by (simp add: effect_defs)

lemma effects_deployStage [simp]: "deployStage (effects s) = deployStage s"
  by (simp add: effect_defs)

lemma effects_deployEnabled [simp]:
  "deployEnabled (effects s) = (deployReady \<le> tsec s \<or> deployEnabled s)"
  by (simp add: effect_defs)

lemma Engine_eqI:
  fixes s s' :: Engine
  assumes "tsec s = tsec s'" "running s = running s'" "agents s = agents s'"
    "artifacts s = artifacts s'" "busEvents s = busEvents s'" "kpis s = kpis s'"
    "deployStage s = deployStage s'" "deployEnabled s = deployEnabled s'"
  shows "s = s'"
  using assms by (cases s, cases s') simp

lemma busActivity_0: "busActivity 0 evs = evs"
  by (simp add: busActivity_def)

lemma stageProgress_before: "t < s \<Longrightarrow> stageProgress t s e = 0"
  by (simp add: stageProgress_def)

lemma projectAgents_0_base: "projectAgents 0 baseAgents = baseAgents"
  by (simp add: projectAgents_def baseAgents_def projectAgent_def shouldLog_def
      stageProgress_def computeStatus_def specStart_def topoStart_def connStart_def derStart_def kpiStart_def viewStart_def valStart_def)

lemma emitArtifacts_0: "emitArtifacts 0 a = a"
  by (simp add: emitArtifacts_def specEnd_def connEnd_def derEnd_def kpiEnd_def viewEnd_def valEnd_def)

lemma projectKpis_0_base: "projectKpis 0 baseKpis = baseKpis"
  by (simp add: projectKpis_def baseKpis_def projectKpi_def clamp_def)

lemma mounted_initial: "mounted = initialState"
  unfolding mounted_def
  by (rule Engine_eqI)
     (simp_all add: initialState_def busActivity_0 projectAgents_0_base emitArtifacts_0 projectKpis_0_base duration_def deployReady_def)

lemma exec_snoc: "exec (cs @ [c]) = step c (exec cs)"
  by (simp add: exec_def)

lemma run_0: "run 0 = initialState"
  by (simp add: run_def exec_def mounted_initial)

lemma run_Suc: "run (Suc n) = tick (run n)"
  unfolding run_def using exec_snoc [of "replicate n Tick" Tick]
  by (simp add: replicate_append_same)

lemma run_clock: "tsec (run n) = min n 180 \<and> running (run n) = (n < 180)"
proof (induction n)
  case 0
  show ?case by (simp add: run_0 initialState_def)
next
  case (Suc n)
  then show ?case
    by (auto simp add: run_Suc tick_def setT_def duration_def)
qed

lemma run_step:
  assumes "n < 180"
  shows "run (Suc n) = effects ((run n)\<lparr>tsec := Suc n\<rparr>)"
  using assms run_clock [of n] by (simp add: run_Suc tick_def setT_def duration_def)

lemma run_done: "180 \<le> n \<Longrightarrow> run n = run 180"
proof (induction n)
  case 0 then show ?case by simp
next
  case (Suc n)
  show ?case
  proof (cases "n = 179")
    case True then show ?thesis by simp
  next
    case False
    with Suc have "run n = run 180" "180 \<le> n" by simp_all
    moreover have "tick (run n) = run n" using run_clock[of n] \<open>180 \<le> n\<close> by (simp add: tick_def)
    ultimately show ?thesis by (simp add: run_Suc)
  qed
qed

lemma run_Suc_done: "180 \<le> n \<Longrightarrow> run (Suc n) = run n"
  using run_clock [of n] by (simp add: run_Suc tick_def)

section \<open>Artifact emitter\<close>

lemmas threshold_defs = specEnd_def connEnd_def derEnd_def kpiEnd_def viewEnd_def valEnd_def

lemma threshold_cases:
  fixes t :: nat
  obtains "t = 32" | "t = 74" | "t = 95" | "t = 120" | "t = 140" | "t = 160"
    | "t \<noteq> 32" "t \<noteq> 74" "t \<noteq> 95" "t \<noteq> 120" "t \<noteq> 140" "t \<noteq> 160"
  by blast

lemma emitArtifacts_idle:
  "t \<noteq> 32 \<Longrightarrow> t \<noteq> 74 \<Longrightarrow> t \<noteq> 95 \<Longrightarrow> t \<noteq> 120 \<Longrightarrow> t \<noteq> 140 \<Longrightarrow> t \<noteq> 160 \<Longrightarrow>
     emitArtifacts t prev = prev"
  by (simp add: emitArtifacts_def threshold_defs)

lemma emitArtifacts_other:
  assumes "bumpedKind t \<noteq> Some k"
  shows "artifactOf k (emitArtifacts t prev) = artifactOf k prev"
proof (cases t rule: threshold_cases)
  case 7
  then show ?thesis by (simp add: emitArtifacts_idle)
qed (use assms in \<open>cases k; simp add: emitArtifacts_def threshold_defs bumpedKind_def\<close>)+

lemma emitArtifacts_bumped:
  assumes "bumpedKind t = Some k"
  shows "version (artifactOf k (emitArtifacts t prev)) = version (artifactOf k prev) + 1 \<and>
     lastUpdatedSec (artifactOf k (emitArtifacts t prev)) = t \<and>
     key (artifactOf k (emitArtifacts t prev)) = key (artifactOf k prev) \<and>
     label (artifactOf k (emitArtifacts t prev)) = label (artifactOf k prev) \<and>
     kind (artifactOf k (emitArtifacts t prev)) = kind (artifactOf k prev)"
proof (cases t rule: threshold_cases)
  case 7
  with assms show ?thesis by (simp add: bumpedKind_def)
qed (use assms in \<open>cases k; simp add: emitArtifacts_def threshold_defs bumpedKind_def\<close>)+

lemma emitArtifacts_replaces:
  assumes "bumpedKind t = Some k"
  shows "summary (artifactOf k (emitArtifacts t prev)) = summary (artifactOf k (emitArtifacts t other)) \<and>
     diffLines (artifactOf k (emitArtifacts t prev)) = diffLines (artifactOf k (emitArtifacts t other))"
proof (cases t rule: threshold_cases)
  case 7
  with assms show ?thesis by (simp add: bumpedKind_def)
qed (use assms in \<open>cases k; simp add: emitArtifacts_def threshold_defs bumpedKind_def\<close>)+

lemma run_artifacts_step:
  "n < 180 \<Longrightarrow> artifacts (run (Suc n)) = emitArtifacts (Suc n) (artifacts (run n))"
  by (simp add: run_step)

lemma run_0_versions: "version (artifactOf k (artifacts (run 0))) = 0"
  by (cases k) (simp_all add: run_0 initialState_def baseArtifacts_def)

lemma emitArtifacts_version:
  "version (artifactOf k (emitArtifacts t prev)) =
     version (artifactOf k prev) + (if bumpedKind t = Some k then 1 else 0)"
  using emitArtifacts_other [of t k prev] emitArtifacts_bumped [of t k prev] by simp

lemma run_versions_closed:
  "version (manifest (artifacts (run m))) = (if 32 \<le> m then 1 else 0) \<and>
   version (bindings (artifacts (run m))) = (if 95 \<le> m then 2 else if 74 \<le> m then 1 else 0) \<and>
   version (kpisPack (artifacts (run m))) = (if 120 \<le> m then 1 else 0) \<and>
   version (views (artifacts (run m))) = (if 140 \<le> m then 1 else 0) \<and>
   version (validation (artifacts (run m))) = (if 160 \<le> m then 1 else 0)"
proof (induction m)
  case 0
  show ?case by (simp add: run_0 initialState_def baseArtifacts_def)
next
  case (Suc m)
  show ?case
  proof (cases "m < 180")
    case True
    note step = run_artifacts_step [OF True]
    have "version (manifest (artifacts (run (Suc m)))) = (if 32 \<le> Suc m then 1 else 0)"
      using emitArtifacts_version [of KManifest "Suc m" "artifacts (run m)"] Suc
      by (auto simp add: step bumpedKind_def)
    moreover have "version (bindings (artifacts (run (Suc m)))) =
        (if 95 \<le> Suc m then 2 else if 74 \<le> Suc m then 1 else 0)"
      using emitArtifacts_version [of KBindings "Suc m" "artifacts (run m)"] Suc
      by (auto simp add: step bumpedKind_def)
    moreover have "version (kpisPack (artifacts (run (Suc m)))) = (if 120 \<le> Suc m then 1 else 0)"
      using emitArtifacts_version [of KKpis "Suc m" "artifacts (run m)"] Suc
      by (auto simp add: step bumpedKind_def)
    moreover have "version (views (artifacts (run (Suc m)))) = (if 140 \<le> Suc m then 1 else 0)"
      using emitArtifacts_version [of KViews "Suc m" "artifacts (run m)"] Suc
      by (auto simp add: step bumpedKind_def)
    moreover have "version (validation (artifacts (run (Suc m)))) = (if 160 \<le> Suc m then 1 else 0)"
      using emitArtifacts_version [of KValidation "Suc m" "artifacts (run m)"] Suc
      by (auto simp add: step bumpedKind_def)
    ultimately show ?thesis by blast
  next
    case False
    then show ?thesis using Suc by (simp add: run_Suc_done)
  qed
qed

text \<open>
  Claim C1. While the clock advances one second at a time (the tick from \<open>n\<close> to
  \<open>n + 1\<close>, for \<open>n < 180\<close>), the version of every artifact grows by exactly 1 when the new
  time is a threshold of its kind (manifest at 32, bindings at 74 and again at 95, kpis at
  120, views at 140, validation at 160) and is unchanged otherwise; every artifact other
  than the bumped one is left as it was, so exactly one artifact is bumped at a threshold;
  the bumped artifact gets the current time as \<open>lastUpdatedSec\<close>, and a summary and diff
  lines that do not depend on the store before (they are the same from any other store
  \<open>other\<close>). Hence after \<open>m\<close> ticks the version of the manifest is 1 from 32 on, that of
  the bindings 1 from 74 on and 2 from 95 on, that of the KPI pack 1 from 120 on, that of
  the views 1 from 140 on and that of the validation report 1 from 160 on, and 0 before.
\<close>

theorem artifact_bumps_under_ticking:
  "n < 180 \<Longrightarrow>
     (let t = Suc n; before = artifacts (run n); after = artifacts (run (Suc n)) in
        tsec (run (Suc n)) = t \<and>
        (\<forall>k. version (artifactOf k after) =
               version (artifactOf k before) + (if bumpedKind t = Some k then 1 else 0)) \<and>
        (\<forall>k. bumpedKind t \<noteq> Some k \<longrightarrow> artifactOf k after = artifactOf k before) \<and>
        (\<forall>k. bumpedKind t = Some k \<longrightarrow>
               lastUpdatedSec (artifactOf k after) = t \<and>
               summary (artifactOf k after) = summary (artifactOf k (emitArtifacts t other)) \<and>
               diffLines (artifactOf k after) = diffLines (artifactOf k (emitArtifacts t other))) \<and>
        version (manifest (artifacts (run m))) = (if 32 \<le> m then 1 else 0) \<and>
        version (bindings (artifacts (run m))) =
          (if 95 \<le> m then 2 else if 74 \<le> m then 1 else 0) \<and>
        version (kpisPack (artifacts (run m))) = (if 120 \<le> m then 1 else 0) \<and>
        version (views (artifacts (run m))) = (if 140 \<le> m then 1 else 0) \<and>
        version (validation (artifacts (run m))) = (if 160 \<le> m then 1 else 0))"
proof -
  assume n: "n < 180"
  have clock: "tsec (run (Suc n)) = Suc n"
    using n run_clock [of "Suc n"] by simp
  have step: "artifacts (run (Suc n)) = emitArtifacts (Suc n) (artifacts (run n))"
    using n by (rule run_artifacts_step)
  have stepwise:
    "tsec (run (Suc n)) = Suc n \<and>
     (\<forall>k. version (artifactOf k (artifacts (run (Suc n)))) =
          version (artifactOf k (artifacts (run n))) + (if bumpedKind (Suc n) = Some k then 1 else 0)) \<and>
     (\<forall>k. bumpedKind (Suc n) \<noteq> Some k \<longrightarrow>
          artifactOf k (artifacts (run (Suc n))) = artifactOf k (artifacts (run n))) \<and>
     (\<forall>k. bumpedKind (Suc n) = Some k \<longrightarrow>
          lastUpdatedSec (artifactOf k (artifacts (run (Suc n)))) = Suc n \<and>
          summary (artifactOf k (artifacts (run (Suc n)))) =
            summary (artifactOf k (emitArtifacts (Suc n) other)) \<and>
          diffLines (artifactOf k (artifacts (run (Suc n)))) =
            diffLines (artifactOf k (emitArtifacts (Suc n) other)))"
    unfolding step
    using clock emitArtifacts_version [of _ "Suc n"] emitArtifacts_other [of "Suc n"]
      emitArtifacts_bumped [of "Suc n"]
      emitArtifacts_replaces [of "Suc n" _ "artifacts (run n)" other]
    by simp
  show ?thesis
    unfolding Let_def using stepwise run_versions_closed [of m] by blast
qed

theorem artifact_bumps_under_ticking_witness:
  "(31 :: nat) < 180 \<and> tsec (run 32) = 32 \<and>
   version (manifest (artifacts (run 32))) = version (manifest (artifacts (run 31))) + 1 \<and>
   version (bindings (artifacts (run 32))) = version (bindings (artifacts (run 31))) \<and>
   bindings (artifacts (run 32)) = bindings (artifacts (run 31)) \<and>
   lastUpdatedSec (manifest (artifacts (run 32))) = 32 \<and>
   version (manifest (artifacts (run 0))) = 0 \<and>
   version (bindings (artifacts (run 100))) = 2"
proof -
  have n: "(31 :: nat) < 180" by simp
  have s: "Suc 31 = 32" by simp
  have b: "bumpedKind 32 = Some KManifest" "bumpedKind 32 \<noteq> Some KBindings"
    by (simp_all add: bumpedKind_def)
  note T = artifact_bumps_under_ticking [OF n, unfolded Let_def s]
  note clock = T [THEN conjunct1]
  note versions = T [THEN conjunct2, THEN conjunct1, rule_format]
  note others = T [THEN conjunct2, THEN conjunct2, THEN conjunct1, rule_format]
  note bumped = T [THEN conjunct2, THEN conjunct2, THEN conjunct2, THEN conjunct1, rule_format]
  note closed = T [THEN conjunct2, THEN conjunct2, THEN conjunct2, THEN conjunct2]
  show ?thesis
    using n clock versions [of KManifest] versions [of KBindings] others [of KBindings, OF b(2)]
      bumped [of KManifest, OF b(1), THEN conjunct1] closed [of 0, THEN conjunct1]
      closed [of 100, THEN conjunct2, THEN conjunct1] b
    by simp
qed

section \<open>Bus event emitter\<close>

lemma pushBus_short: "length evs < 70 \<Longrightarrow> pushBus e evs = evs @ [e]"
  by (simp add: pushBus_def slice_from_def Let_def)

lemma pushBus_length: "length (pushBus e evs) = min 70 (Suc (length evs))"
  by (simp add: pushBus_def slice_from_def Let_def)

lemma busActivity_idle: "t \<notin> set busTimes \<Longrightarrow> busActivity t evs = evs"
  by (simp add: busActivity_def busTimes_def)

lemma busActivity_first:
  "busActivity 2 evs =
     pushBus \<lparr>ev_t = 2, bus = TimescaleDB, sev = info,
              msg = ''Workspace created: ebm-papst/cabinetA''\<rparr> evs"
  by (simp add: busActivity_def)

lemma busActivity_scripted:
  assumes "t \<in> set busTimes"
  shows "\<exists>b sv m. \<forall>evs. busActivity t evs = pushBus \<lparr>ev_t = t, bus = b, sev = sv, msg = m\<rparr> evs"
proof -
  from assms consider "t = 2" | "t = 8" | "t = 33" | "t = 38" | "t = 44" | "t = 52" | "t = 60"
    | "t = 68" | "t = 76" | "t = 82" | "t = 131" | "t = 148" | "t = 162"
    by (auto simp add: busTimes_def)
  then show ?thesis
    by cases (simp_all add: busActivity_def, blast+)
qed

lemma filter_le_Suc:
  "sorted_wrt (<) xs \<Longrightarrow>
     filter (\<lambda>x. x \<le> Suc n) xs = filter (\<lambda>x. x \<le> n) xs @ (if Suc n \<in> set xs then [Suc n] else [])"
proof (induction xs)
  case Nil
  show ?case by simp
next
  case (Cons x xs)
  show ?case
  proof (cases "x \<le> n")
    case True
    with Cons show ?thesis by auto
  next
    case False
    with Cons.prems have "\<forall>y \<in> set xs. \<not> y \<le> Suc n" by auto
    then have "filter (\<lambda>x. x \<le> Suc n) xs = []" "filter (\<lambda>x. x \<le> n) xs = []" "Suc n \<notin> set xs"
      by (auto simp add: filter_empty_conv)
    with False show ?thesis by auto
  qed
qed

lemma busTimes_sorted: "sorted_wrt (<) busTimes"
  by (simp add: busTimes_def)

lemma run_busEvents_step:
  "n < 180 \<Longrightarrow> busEvents (run (Suc n)) = busActivity (Suc n) (busEvents (run n))"
  by (simp add: run_step)

lemma busActivity_times:
  assumes "length evs < 70"
  shows "map ev_t (busActivity t evs) = map ev_t evs @ (if t \<in> set busTimes then [t] else [])"
proof (cases "t \<in> set busTimes")
  case True
  from busActivity_scripted [OF True] obtain b sv m
    where "busActivity t evs = pushBus \<lparr>ev_t = t, bus = b, sev = sv, msg = m\<rparr> evs"
    by blast
  with assms True show ?thesis by (simp add: pushBus_short)
next
  case False
  then show ?thesis by (simp add: busActivity_idle)
qed

lemma run_bus_times_upto: "n \<le> 180 \<Longrightarrow> map ev_t (busEvents (run n)) = filter (\<lambda>x. x \<le> n) busTimes"
proof (induction n)
  case 0
  show ?case by (simp add: run_0 initialState_def busTimes_def)
next
  case (Suc n)
  then have ih: "map ev_t (busEvents (run n)) = filter (\<lambda>x. x \<le> n) busTimes" and n: "n < 180"
    by simp_all
  have "length (map ev_t (busEvents (run n))) \<le> length busTimes"
    unfolding ih by (rule length_filter_le)
  then have short: "length (busEvents (run n)) < 70"
    by (simp add: busTimes_def)
  show ?case
    using busActivity_times [OF short, of "Suc n"] filter_le_Suc [OF busTimes_sorted, of n]
    by (simp add: run_busEvents_step [OF n] ih)
qed

lemma busTimes_bound: "x \<in> set busTimes \<Longrightarrow> x \<le> 162"
  by (auto simp add: busTimes_def)

lemma run_bus_times: "map ev_t (busEvents (run n)) = filter (\<lambda>x. x \<le> n) busTimes"
proof (cases "n \<le> 180")
  case True
  then show ?thesis by (rule run_bus_times_upto)
next
  case False
  then have "run n = run 180" by (intro run_done) simp
  moreover have "filter (\<lambda>x. x \<le> k) busTimes = busTimes" if "180 \<le> k" for k
    unfolding filter_id_conv using busTimes_bound that by fastforce
  ultimately show ?thesis using run_bus_times_upto [of 180] False by simp
qed

text \<open>
  Claim C3, as amended. The bus script has thirteen timestamps (not fourteen): 2, 8, 33,
  38, 44, 52, 60, 68, 76, 82, 131, 148 and 162. At each of them the emitter pushes one
  event whose bus, severity and message are fixed (they do not depend on the events so
  far) and whose time is the clock; at every other time it leaves the sequence as it is.
  A push onto fewer than 70 events appends. The event at 2 is
  \<open>Workspace created: ebm-papst/cabinetA\<close>. After \<open>n\<close> ticks the times of the events in
  the sequence are exactly the timestamps up to \<open>n\<close>, in order, the last being 162.
\<close>

theorem bus_emitter_thirteen_timestamps:
  "busTimes = [2, 8, 33, 38, 44, 52, 60, 68, 76, 82, 131, 148, 162] \<and>
   length busTimes = 13 \<and>
   (t \<in> set busTimes \<longrightarrow>
      (\<exists>b sv m. \<forall>evs. busActivity t evs = pushBus \<lparr>ev_t = t, bus = b, sev = sv, msg = m\<rparr> evs)) \<and>
   (t \<notin> set busTimes \<longrightarrow> busActivity t evs = evs) \<and>
   (length evs < 70 \<longrightarrow> pushBus e evs = evs @ [e]) \<and>
   busActivity 2 evs =
     pushBus \<lparr>ev_t = 2, bus = TimescaleDB, sev = info,
              msg = ''Workspace created: ebm-papst/cabinetA''\<rparr> evs \<and>
   map ev_t (busEvents (run n)) = filter (\<lambda>x. x \<le> n) busTimes"
proof (intro conjI impI)
  show "busTimes = [2, 8, 33, 38, 44, 52, 60, 68, 76, 82, 131, 148, 162]"
    by (simp add: busTimes_def)
  show "length busTimes = 13"
    by (simp add: busTimes_def)
  show "\<exists>b sv m. \<forall>evs. busActivity t evs = pushBus \<lparr>ev_t = t, bus = b, sev = sv, msg = m\<rparr> evs"
    if "t \<in> set busTimes"
    using that by (rule busActivity_scripted)
  show "busActivity t evs = evs" if "t \<notin> set busTimes"
    using that by (rule busActivity_idle)
  show "pushBus e evs = evs @ [e]" if "length evs < 70"
    using that by (rule pushBus_short)
  show "busActivity 2 evs =
     pushBus \<lparr>ev_t = 2, bus = TimescaleDB, sev = info,
              msg = ''Workspace created: ebm-papst/cabinetA''\<rparr> evs"
    by (rule busActivity_first)
  show "map ev_t (busEvents (run n)) = filter (\<lambda>x. x \<le> n) busTimes"
    by (rule run_bus_times)
qed

theorem bus_emitter_thirteen_timestamps_witness:
  "(\<exists>b sv m. \<forall>evs. busActivity 162 evs = pushBus \<lparr>ev_t = 162, bus = b, sev = sv, msg = m\<rparr> evs) \<and>
   busActivity 3 [] = [] \<and>
   pushBus \<lparr>ev_t = 8, bus = TimescaleDB, sev = ok, msg = ''Twin PR branch: draft/v1 created''\<rparr> []
     = [\<lparr>ev_t = 8, bus = TimescaleDB, sev = ok, msg = ''Twin PR branch: draft/v1 created''\<rparr>] \<and>
   map ev_t (busEvents (run 40)) = [2, 8, 33, 38]"
proof -
  note scripted = bus_emitter_thirteen_timestamps
    [THEN conjunct2, THEN conjunct2, THEN conjunct1, THEN mp]
  note idle = bus_emitter_thirteen_timestamps
    [THEN conjunct2, THEN conjunct2, THEN conjunct2, THEN conjunct1, THEN mp]
  note push = bus_emitter_thirteen_timestamps
    [THEN conjunct2, THEN conjunct2, THEN conjunct2, THEN conjunct2, THEN conjunct1, THEN mp]
  note times = bus_emitter_thirteen_timestamps
    [THEN conjunct2, THEN conjunct2, THEN conjunct2, THEN conjunct2, THEN conjunct2, THEN conjunct2]
  have "\<exists>b sv m. \<forall>evs. busActivity 162 evs = pushBus \<lparr>ev_t = 162, bus = b, sev = sv, msg = m\<rparr> evs"
    by (rule scripted) (simp add: busTimes_def)
  moreover have "busActivity 3 [] = []"
    by (rule idle) (simp add: busTimes_def)
  moreover have "pushBus \<lparr>ev_t = 8, bus = TimescaleDB, sev = ok, msg = ''Twin PR branch: draft/v1 created''\<rparr> []
     = [] @ [\<lparr>ev_t = 8, bus = TimescaleDB, sev = ok, msg = ''Twin PR branch: draft/v1 created''\<rparr>]"
    by (rule push) simp
  moreover have "map ev_t (busEvents (run 40)) = [2, 8, 33, 38]"
    unfolding times [of 40] by (simp add: busTimes_def)
  ultimately show ?thesis by simp
qed

text \<open>
  The claim as stated fails: after the full run of 180 ticks the sequence holds thirteen
  events, one for each timestamp of the script, and not fourteen.
\<close>

theorem bus_events_full_run_thirteen:
  "length (busEvents (run 180)) = 13 \<and>
   map ev_t (busEvents (run 180)) = [2, 8, 33, 38, 44, 52, 60, 68, 76, 82, 131, 148, 162]"
proof -
  have times: "map ev_t (busEvents (run 180)) = [2, 8, 33, 38, 44, 52, 60, 68, 76, 82, 131, 148, 162]"
    using run_bus_times [of 180] by (simp add: busTimes_def)
  from arg_cong [OF times, of length] have "length (busEvents (run 180)) = 13" by simp
  with times show ?thesis by simp
qed

section \<open>Agent state projector\<close>

lemma slice_last20: "slice_from (- 20) xs = drop (length xs - 20) xs"
  by (auto simp add: slice_from_def max_def nat_diff_distrib intro: arg_cong [where f = "\<lambda>k. drop k xs"])

lemma slice_last20_length: "length (slice_from (- 20) xs) = min 20 (length xs)"
  by (simp add: slice_last20)

lemma slice_last20_short: "length xs \<le> 20 \<Longrightarrow> slice_from (- 20) xs = xs"
  by (simp add: slice_last20)

lemma computeStatus_not_Failed: "computeStatus t p s e \<noteq> Failed"
  by (simp add: computeStatus_def)

lemma projectAgent_aid [simp]: "aid (projectAgent t a) = aid a"
  by (simp add: projectAgent_def Let_def)

lemma projectAgent_name [simp]: "name (projectAgent t a) = name a"
  by (simp add: projectAgent_def Let_def)

lemma projectAgent_outputArtifacts [simp]: "outputArtifacts (projectAgent t a) = outputArtifacts a"
  by (simp add: projectAgent_def Let_def)

lemma projectAgent_logs:
  "logs (projectAgent t a) =
     (if shouldLog (aid a) t
      then slice_from (- 20) (logs a @ [formatSec t @ '' '' @ u_bullet @ '' '' @ logLine (aid a) t])
      else logs a)"
  by (simp add: projectAgent_def Let_def)

lemma projectAgent_status_not_Failed: "status (projectAgent t a) \<noteq> Failed"
  by (simp add: projectAgent_def Let_def computeStatus_not_Failed)

lemma projectAgent_progress_cong:
  "aid a = aid b \<Longrightarrow> progress (projectAgent t a) = progress (projectAgent t b)"
  by (simp add: projectAgent_def Let_def)

lemma projectAgent_status_cong:
  "aid a = aid b \<Longrightarrow> status (projectAgent t a) = status (projectAgent t b)"
  by (simp add: projectAgent_def Let_def)

lemma Agent_eqI:
  fixes a b :: Agent
  assumes "aid a = aid b" "name a = name b" "status a = status b" "progress a = progress b"
    "outputArtifacts a = outputArtifacts b" "logs a = logs b"
  shows "a = b"
  using assms by (cases a, cases b) simp

lemma shouldLog_milestones: "shouldLog a t \<longleftrightarrow> t \<in> set (milestones a)"
  by (simp add: shouldLog_def milestones_def)

lemma projectAgent_conn:
  "aid a = ''conn'' \<Longrightarrow>
     progress (projectAgent t a) = stageProgress (real t) (real connStart) (real connEnd) \<and>
     status (projectAgent t a) =
       computeStatus (real t) (stageProgress (real t) (real connStart) (real connEnd))
         (real connStart) (real connEnd)"
  by (simp add: projectAgent_def Let_def)

lemma milestones_sorted: "sorted_wrt (<) (milestones a)"
  by (simp add: milestones_def)

lemma milestones_length: "length (milestones a) \<le> 4"
  by (simp add: milestones_def)

lemma milestones_bound: "t \<in> set (milestones a) \<Longrightarrow> t \<le> 160"
  by (auto simp add: milestones_def split: if_splits)

lemma scriptedLogs_length: "length (scriptedLogs a n) \<le> 4"
  unfolding scriptedLogs_def length_map
  by (rule le_trans [OF length_filter_le milestones_length])

lemma scriptedLogs_Suc:
  "scriptedLogs a (Suc n) =
     scriptedLogs a n @ (if Suc n \<in> set (milestones a) then [logEntry a (Suc n)] else [])"
  unfolding scriptedLogs_def by (simp add: filter_le_Suc [OF milestones_sorted])

lemma scriptedLogs_done: "160 \<le> n \<Longrightarrow> scriptedLogs a n = map (logEntry a) (milestones a)"
proof -
  assume "160 \<le> n"
  then have "filter (\<lambda>t. t \<le> n) (milestones a) = milestones a"
    unfolding filter_id_conv using milestones_bound [of _ a] by fastforce
  then show ?thesis by (simp add: scriptedLogs_def)
qed

lemma projectAgent_scripted:
  assumes "logs a = scriptedLogs (aid a) n"
  shows "logs (projectAgent (Suc n) a) = scriptedLogs (aid a) (Suc n)"
proof (cases "shouldLog (aid a) (Suc n)")
  case True
  have "length (logs a @ [logEntry (aid a) (Suc n)]) \<le> 20"
    using scriptedLogs_length [of "aid a" n] assms by simp
  then have "slice_from (- 20) (logs a @ [logEntry (aid a) (Suc n)]) = logs a @ [logEntry (aid a) (Suc n)]"
    by (rule slice_last20_short)
  with True assms show ?thesis
    by (simp add: projectAgent_logs scriptedLogs_Suc shouldLog_milestones logEntry_def)
next
  case False
  with assms show ?thesis
    by (simp add: projectAgent_logs scriptedLogs_Suc shouldLog_milestones)
qed

lemma run_agents_step:
  "n < 180 \<Longrightarrow> agents (run (Suc n)) = projectAgents (Suc n) (agents (run n))"
  by (simp add: run_step)

lemma run_agent_ids: "map aid (agents (run n)) = agentIds"
proof (induction n)
  case 0
  show ?case by (simp add: run_0 initialState_def baseAgents_def agentIds_def)
next
  case (Suc n)
  show ?case
  proof (cases "n < 180")
    case True
    then show ?thesis using Suc by (simp add: run_agents_step projectAgents_def comp_def)
  next
    case False
    then show ?thesis using Suc by (simp add: run_Suc_done)
  qed
qed

lemma run_agent_logs: "\<forall>a \<in> set (agents (run n)). logs a = scriptedLogs (aid a) n"
proof (induction n)
  case 0
  show ?case
    by (simp add: run_0 initialState_def baseAgents_def scriptedLogs_def milestones_def)
next
  case (Suc n)
  show ?case
  proof (cases "n < 180")
    case True
    then show ?thesis using Suc by (simp add: run_agents_step projectAgents_def projectAgent_scripted)
  next
    case False
    then have "scriptedLogs a (Suc n) = scriptedLogs a n" for a
      by (simp add: scriptedLogs_done)
    with False Suc show ?thesis by (simp add: run_Suc_done)
  qed
qed

lemma projectAgent_logs_entry:
  "logs (projectAgent t ag) =
     (if t \<in> set (milestones (aid ag))
      then slice_from (- 20) (logs ag @ [logEntry (aid ag) t])
      else logs ag)"
  by (simp add: projectAgent_logs shouldLog_milestones logEntry_def)

lemma milestones_table:
  "map milestones agentIds =
     [[10, 18, 26, 32], [], [40, 52, 68, 74], [], [76, 90, 108, 120], [104, 118, 132, 140],
      [136, 148, 160]]"
  by (simp add: agentIds_def milestones_def)

lemma last_lines:
  "logLine ''spec'' 32 = ''Manifest compiled (draft v1)''"
  "logLine ''conn'' 74 = ''Bindings compiled (draft v1)''"
  "logLine ''kpi'' 120 = ''KPI pack compiled (draft v1)''"
  "logLine ''view'' 140 = ''Views compiled (draft v1)''"
  "logLine ''val'' 160 = ''Ready for staging deploy''"
  by (simp_all add: logLine_def)

text \<open>
  Claim C4, as amended. Five of the seven agents have milestone timestamps: \<open>spec\<close>,
  \<open>conn\<close>, \<open>kpi\<close> and \<open>view\<close> four each, \<open>val\<close> three, \<open>topo\<close> and \<open>der\<close> none. The
  projector appends one log line to an agent exactly when the clock is one of its
  milestones, and keeps the last 20 entries then; at any other time the log is unchanged.
  The last milestone of \<open>spec\<close>, \<open>conn\<close>, \<open>kpi\<close> and \<open>view\<close> writes a line
  \<open>... compiled (draft v1)\<close>, the last milestone of \<open>val\<close> writes
  \<open>Ready for staging deploy\<close>. After \<open>n\<close> ticks the log of every agent holds one entry
  for each of its milestones up to \<open>n\<close>.
\<close>

theorem agent_log_milestones:
  "(shouldLog a t \<longleftrightarrow> t \<in> set (milestones a)) \<and>
   map milestones agentIds =
     [[10, 18, 26, 32], [], [40, 52, 68, 74], [], [76, 90, 108, 120], [104, 118, 132, 140],
      [136, 148, 160]] \<and>
   logs (projectAgent t ag) =
     (if t \<in> set (milestones (aid ag))
      then slice_from (- 20) (logs ag @ [logEntry (aid ag) t])
      else logs ag) \<and>
   slice_from (- 20) xs = drop (length xs - 20) xs \<and>
   length (slice_from (- 20) xs) = min 20 (length xs) \<and>
   logLine ''spec'' 32 = ''Manifest compiled (draft v1)'' \<and>
   logLine ''conn'' 74 = ''Bindings compiled (draft v1)'' \<and>
   logLine ''kpi'' 120 = ''KPI pack compiled (draft v1)'' \<and>
   logLine ''view'' 140 = ''Views compiled (draft v1)'' \<and>
   logLine ''val'' 160 = ''Ready for staging deploy'' \<and>
   (\<forall>b \<in> set (agents (run n)). logs b = scriptedLogs (aid b) n)"
proof (intro conjI)
  show "shouldLog a t \<longleftrightarrow> t \<in> set (milestones a)"
    by (rule shouldLog_milestones)
  show "map milestones agentIds =
     [[10, 18, 26, 32], [], [40, 52, 68, 74], [], [76, 90, 108, 120], [104, 118, 132, 140],
      [136, 148, 160]]"
    by (rule milestones_table)
  show "logs (projectAgent t ag) =
     (if t \<in> set (milestones (aid ag))
      then slice_from (- 20) (logs ag @ [logEntry (aid ag) t])
      else logs ag)"
    by (rule projectAgent_logs_entry)
  show "slice_from (- 20) xs = drop (length xs - 20) xs"
    by (rule slice_last20)
  show "length (slice_from (- 20) xs) = min 20 (length xs)"
    by (rule slice_last20_length)
  show "\<forall>b \<in> set (agents (run n)). logs b = scriptedLogs (aid b) n"
    by (rule run_agent_logs)
qed (rule last_lines)+

theorem agent_log_milestones_witness:
  "shouldLog ''val'' 148 \<and> \<not> shouldLog ''val'' 149 \<and>
   logs (projectAgent 26 \<lparr>aid = ''spec'', name = ''Spec Agent'', status = Running, progress = 70,
       outputArtifacts = [''manifest''], logs = [''a'', ''b'']\<rparr>)
     = [''a'', ''b'', ''00:26 '' @ u_bullet @ '' Setting parameters: variable_speed, monthly_kpis=true''] \<and>
   logs (hd (agents (run 20))) = [logEntry ''spec'' 10, logEntry ''spec'' 18]"
proof -
  note T = agent_log_milestones
  note should = T [THEN conjunct1]
  note projected = T [THEN conjunct2, THEN conjunct2, THEN conjunct1]
  note sliced = T [THEN conjunct2, THEN conjunct2, THEN conjunct2, THEN conjunct1]
  note ran = T [THEN conjunct2, THEN conjunct2, THEN conjunct2, THEN conjunct2, THEN conjunct2,
    THEN conjunct2, THEN conjunct2, THEN conjunct2, THEN conjunct2, THEN conjunct2, rule_format]
  have "shouldLog ''val'' 148" "\<not> shouldLog ''val'' 149"
    unfolding should by (simp_all add: milestones_def)
  moreover have "logs (projectAgent 26 \<lparr>aid = ''spec'', name = ''Spec Agent'', status = Running, progress = 70,
       outputArtifacts = [''manifest''], logs = [''a'', ''b'']\<rparr>)
     = [''a'', ''b'', ''00:26 '' @ u_bullet @ '' Setting parameters: variable_speed, monthly_kpis=true'']"
    unfolding projected sliced
    by (simp add: milestones_def logEntry_def logLine_def formatSec_def padStart2_def
        string_of_nat.simps digit_char_def)
  moreover have "logs (hd (agents (run 20))) = [logEntry ''spec'' 10, logEntry ''spec'' 18]"
  proof -
    from run_agent_ids [of 20] obtain x xs where xs: "agents (run 20) = x # xs" and x: "aid x = ''spec''"
      by (cases "agents (run 20)") (auto simp add: agentIds_def)
    from ran [of x 20] xs have "logs x = scriptedLogs (aid x) 20" by simp
    with xs x show ?thesis by (simp add: scriptedLogs_def milestones_def)
  qed
  ultimately show ?thesis by simp
qed

text \<open>
  The claim as stated fails: after the full run the agents \<open>topo\<close> and \<open>der\<close> have logged
  nothing and \<open>val\<close> has logged three lines, the last of them not a
  \<open>compiled (draft v1)\<close> message.
\<close>

theorem agent_logs_full_run:
  "map (\<lambda>b. (aid b, length (logs b))) (agents (run 180)) =
     [(''spec'', 4), (''topo'', 0), (''conn'', 4), (''der'', 0), (''kpi'', 4), (''view'', 4),
      (''val'', 3)] \<and>
   logLine ''val'' 160 = ''Ready for staging deploy''"
proof -
  have "map (\<lambda>b. (aid b, length (logs b))) (agents (run 180)) =
        map (\<lambda>b. (aid b, length (scriptedLogs (aid b) 180))) (agents (run 180))"
    using run_agent_logs [of 180] by simp
  also have "\<dots> = map (\<lambda>i. (i, length (scriptedLogs i 180))) (map aid (agents (run 180)))"
    by (simp add: comp_def)
  also have "\<dots> = [(''spec'', 4), (''topo'', 0), (''conn'', 4), (''der'', 0), (''kpi'', 4),
      (''view'', 4), (''val'', 3)]"
    unfolding run_agent_ids by (simp add: agentIds_def scriptedLogs_def milestones_def)
  finally show ?thesis by (simp add: last_lines)
qed

section \<open>The connector agent at 33 seconds\<close>

lemma filter_conn_ids:
  assumes "map aid xs = agentIds"
  shows "\<exists>c. filter (\<lambda>a. aid a = ''conn'') xs = [c] \<and> aid c = ''conn''"
proof -
  from assms obtain a1 a2 a3 a4 a5 a6 a7 where "xs = [a1, a2, a3, a4, a5, a6, a7]"
    by (auto simp add: agentIds_def map_eq_Cons_conv)
  with assms show ?thesis by (simp add: agentIds_def)
qed

text \<open>
  Claim C6. After 33 ticks from the start the connector agent, whose window is
  \<open>[30, 74]\<close>, has progress \<open>round (100 * 3 / 44) = 7\<close> and, 7 being below the cutoff 20,
  the status \<open>Planning\<close> (not \<open>Running\<close>).
\<close>

theorem connector_planning_at_33:
  "map (\<lambda>a. (aid a, progress a, status a)) (filter (\<lambda>a. aid a = ''conn'') (agents (run 33)))
     = [(''conn'', 7, Planning)] \<and>
   connStart = 30 \<and> connEnd = 74 \<and>
   stageProgress 33 (real connStart) (real connEnd) = 7 \<and>
   math_round (100 * 3 / 44) = 7 \<and>
   computeStatus 33 7 (real connStart) (real connEnd) = Planning"
proof -
  have p: "stageProgress 33 (real connStart) (real connEnd) = 7"
    using stageProgress_33_30_74 by (simp add: connStart_def connEnd_def)
  have st: "computeStatus 33 7 (real connStart) (real connEnd) = Planning"
    by (simp add: computeStatus_def connStart_def connEnd_def)
  have r: "math_round (100 * 3 / 44) = 7"
    by (simp add: math_round_def)
  have step: "agents (run 33) = map (projectAgent 33) (agents (run 32))"
    using run_agents_step [of 32] by (simp add: projectAgents_def)
  from filter_conn_ids [OF run_agent_ids [of 32]] obtain c
    where c: "filter (\<lambda>a. aid a = ''conn'') (agents (run 32)) = [c]" "aid c = ''conn''"
    by blast
  have "filter (\<lambda>a. aid a = ''conn'') (agents (run 33)) =
        map (projectAgent 33) (filter (\<lambda>a. aid a = ''conn'') (agents (run 32)))"
    unfolding step by (simp add: filter_map comp_def)
  with c have "filter (\<lambda>a. aid a = ''conn'') (agents (run 33)) = [projectAgent 33 c]"
    by simp
  moreover have "progress (projectAgent 33 c) = 7" "status (projectAgent 33 c) = Planning"
    using projectAgent_conn [OF c(2), of 33] p st by simp_all
  ultimately show ?thesis using c(2) p st r by (simp add: connStart_def connEnd_def)
qed

section \<open>KPI projector\<close>

lemma KPI_updated_fields:
  "kkey (k\<lparr>kvalue := v, confidence := c, trend := tr\<rparr>) = kkey k"
  "kvalue (k\<lparr>kvalue := v, confidence := c, trend := tr\<rparr>) = v"
  "confidence (k\<lparr>kvalue := v, confidence := c, trend := tr\<rparr>) = c"
  by simp_all

lemma projectKpi_kkey [simp]: "kkey (projectKpi t k) = kkey k"
  unfolding projectKpi_def Let_def by (rule KPI_updated_fields)

lemma phase1_zero: "t \<le> 55 \<Longrightarrow> clamp ((real t - 55) / 40) 0 1 = 0"
  by (simp add: clamp_def)

lemma phase1_pos: "56 \<le> t \<Longrightarrow> 0 < clamp ((real t - 55) / 40) 0 1"
  by (simp add: clamp_def)

lemma projectKpi_early:
  assumes "t \<le> 55"
  shows "kvalue (projectKpi t k) = None \<and> confidence (projectKpi t k) = 0"
  unfolding projectKpi_def Let_def KPI_updated_fields phase1_zero [OF assms]
  by simp

lemma projectKpi_late:
  assumes "56 \<le> t" "kkey k \<in> set kpiKeys"
  shows "kvalue (projectKpi t k) \<noteq> None"
proof -
  from assms(2) consider "kkey k = ''prod''" | "kkey k = ''energy''" | "kkey k = ''eff''"
    | "kkey k = ''util''" | "kkey k = ''risk''"
    by (auto simp add: kpiKeys_def)
  then show ?thesis
    unfolding projectKpi_def Let_def KPI_updated_fields if_P [OF phase1_pos [OF assms(1)]]
    by cases simp_all
qed

lemma run_kpis_step:
  "n < 180 \<Longrightarrow> kpis (run (Suc n)) = projectKpis (Suc n) (kpis (run n))"
  by (simp add: run_step)

lemma run_kpi_keys: "map kkey (kpis (run n)) = kpiKeys"
proof (induction n)
  case 0
  show ?case by (simp add: run_0 initialState_def baseKpis_def kpiKeys_def)
next
  case (Suc n)
  show ?case
  proof (cases "n < 180")
    case True
    then show ?thesis using Suc by (simp add: run_kpis_step projectKpis_def comp_def)
  next
    case False
    then show ?thesis using Suc by (simp add: run_Suc_done)
  qed
qed

lemma run_kpi_values:
  "\<forall>k \<in> set (kpis (run n)).
     (n \<le> 55 \<longrightarrow> kvalue k = None \<and> confidence k = 0) \<and> (56 \<le> n \<longrightarrow> kvalue k \<noteq> None)"
proof (induction n)
  case 0
  show ?case by (simp add: run_0 initialState_def baseKpis_def)
next
  case (Suc n)
  show ?case
  proof (cases "n < 180")
    case True
    have keys: "kkey k \<in> set kpiKeys" if "k \<in> set (kpis (run n))" for k
      using that run_kpi_keys [of n] by (metis image_eqI set_map)
    show ?thesis
      unfolding run_kpis_step [OF True] projectKpis_def
      using projectKpi_early [of "Suc n"] projectKpi_late [of "Suc n"] keys
      by auto
  next
    case False
    then show ?thesis using Suc by (simp add: run_Suc_done)
  qed
qed

text \<open>
  Claim C2, as amended. While the clock advances one second at a time from 0, the
  value of each of the five KPIs is null at every time up to and including 55 and
  non-null from 56 on; the confidence is 0 whenever the value is null.
\<close>

theorem kpi_values_null_until_55:
  "tsec (run n) = min n 180 \<and>
   map kkey (kpis (run n)) = [''prod'', ''energy'', ''eff'', ''util'', ''risk''] \<and>
   (\<forall>k \<in> set (kpis (run n)).
      (n \<le> 55 \<longrightarrow> kvalue k = None) \<and>
      (56 \<le> n \<longrightarrow> kvalue k \<noteq> None) \<and>
      (kvalue k = None \<longrightarrow> confidence k = 0))"
proof (intro conjI)
  show "tsec (run n) = min n 180"
    using run_clock [of n] by simp
  show "map kkey (kpis (run n)) = [''prod'', ''energy'', ''eff'', ''util'', ''risk'']"
    using run_kpi_keys [of n] by (simp add: kpiKeys_def)
  show "\<forall>k \<in> set (kpis (run n)).
      (n \<le> 55 \<longrightarrow> kvalue k = None) \<and>
      (56 \<le> n \<longrightarrow> kvalue k \<noteq> None) \<and>
      (kvalue k = None \<longrightarrow> confidence k = 0)"
  proof
    fix k assume "k \<in> set (kpis (run n))"
    with run_kpi_values [of n]
    have k: "(n \<le> 55 \<longrightarrow> kvalue k = None \<and> confidence k = 0) \<and> (56 \<le> n \<longrightarrow> kvalue k \<noteq> None)"
      by blast
    have "n \<le> 55 \<or> 56 \<le> n" by arith
    with k show "(n \<le> 55 \<longrightarrow> kvalue k = None) \<and>
      (56 \<le> n \<longrightarrow> kvalue k \<noteq> None) \<and>
      (kvalue k = None \<longrightarrow> confidence k = 0)"
      by blast
  qed
qed

theorem kpi_values_null_until_55_witness:
  "tsec (run 54) = 54 \<and> kvalue (hd (kpis (run 54))) = None \<and>
   confidence (hd (kpis (run 54))) = 0 \<and>
   tsec (run 56) = 56 \<and> kvalue (hd (kpis (run 56))) \<noteq> None"
proof -
  note T = kpi_values_null_until_55
  have first: "hd (kpis (run n)) \<in> set (kpis (run n))" for n
    using T [of n, THEN conjunct2, THEN conjunct1] by (cases "kpis (run n)") simp_all
  note at54 = T [of 54, THEN conjunct2, THEN conjunct2, rule_format, OF first]
  note at56 = T [of 56, THEN conjunct2, THEN conjunct2, rule_format, OF first]
  have "kvalue (hd (kpis (run 54))) = None"
    using at54 by simp
  moreover from this have "confidence (hd (kpis (run 54))) = 0"
    using at54 by simp
  moreover have "kvalue (hd (kpis (run 56))) \<noteq> None"
    using at56 by simp
  ultimately show ?thesis
    using T [of 54, THEN conjunct1] T [of 56, THEN conjunct1] by simp
qed

text \<open>
  The claim as stated fails at \<open>t = 55\<close>: the weight of the data-arrival phase is still 0
  there, the test \<open>phase1 > 0\<close> fails, and all five values are null.
\<close>

theorem kpi_values_null_at_55:
  "tsec (run 55) = 55 \<and> map kvalue (kpis (run 55)) = [None, None, None, None, None]"
proof -
  have "length (kpis (run 55)) = 5"
    using arg_cong [OF run_kpi_keys [of 55], of length] by (simp add: kpiKeys_def)
  then obtain k1 k2 k3 k4 k5 where ks: "kpis (run 55) = [k1, k2, k3, k4, k5]"
    by (auto simp add: length_Suc_conv eval_nat_numeral)
  with run_kpi_values [of 55] have "map kvalue (kpis (run 55)) = [None, None, None, None, None]"
    by simp
  then show ?thesis using run_clock [of 55] by simp
qed

section \<open>Deploy gate\<close>

lemma promote_noop: "\<not> deployEnabled s \<or> deployStage s = Prod \<Longrightarrow> promote s = s"
  by (auto simp add: promote_def)

lemma promote_Draft:
  "deployEnabled s \<Longrightarrow> deployStage s = Draft \<Longrightarrow> promote s = s\<lparr>deployStage := Staging\<rparr>"
  by (simp add: promote_def)

lemma promote_Staging:
  "deployEnabled s \<Longrightarrow> deployStage s = Staging \<Longrightarrow> promote s = s\<lparr>deployStage := Prod\<rparr>"
  by (simp add: promote_def)

lemma run_deployEnabled: "deployEnabled (run n) = (160 \<le> n)"
proof (induction n)
  case 0
  show ?case by (simp add: run_0 initialState_def)
next
  case (Suc n)
  show ?case
  proof (cases "n < 180")
    case True
    then show ?thesis using Suc by (auto simp add: run_step deployReady_def)
  next
    case False
    then show ?thesis using Suc by (simp add: run_Suc_done)
  qed
qed

lemma run_deployStage: "deployStage (run n) = Draft"
proof (induction n)
  case 0
  show ?case by (simp add: run_0 initialState_def)
next
  case (Suc n)
  then show ?case
    by (cases "n < 180") (simp_all add: run_step run_Suc_done)
qed

text \<open>
  Claim C8. \<open>promote\<close> leaves the state as it is when the gate is closed or the stage is
  Production; with the gate open it takes Draft to Staging and Staging to Production and
  changes nothing else. Under ticking the gate is closed at every time below 160 and
  open from 160 on. On the fresh engine \<open>promote\<close> does nothing; at \<open>t = 170\<close> two calls
  lead from Draft to Staging to Production and a third call does nothing.
\<close>

theorem promote_gated_transitions:
  "(\<not> deployEnabled s \<or> deployStage s = Prod \<longrightarrow> promote s = s) \<and>
   (deployEnabled s \<and> deployStage s = Draft \<longrightarrow> promote s = s\<lparr>deployStage := Staging\<rparr>) \<and>
   (deployEnabled s \<and> deployStage s = Staging \<longrightarrow> promote s = s\<lparr>deployStage := Prod\<rparr>) \<and>
   tsec (run n) = min n 180 \<and>
   deployEnabled (run n) = (160 \<le> n) \<and>
   deployStage mounted = Draft \<and> \<not> deployEnabled mounted \<and> promote mounted = mounted \<and>
   tsec (run 170) = 170 \<and>
   deployStage (run 170) = Draft \<and>
   deployStage (promote (run 170)) = Staging \<and>
   deployStage (promote (promote (run 170))) = Prod \<and>
   promote (promote (promote (run 170))) = promote (promote (run 170))"
proof -
  have fresh: "deployStage mounted = Draft" "\<not> deployEnabled mounted" "promote mounted = mounted"
    by (simp_all add: mounted_initial initialState_def promote_def)
  have at170: "deployEnabled (run 170)" "deployStage (run 170) = Draft" "tsec (run 170) = 170"
    using run_clock [of 170] by (simp_all add: run_deployEnabled run_deployStage)
  then have calls:
    "deployStage (promote (run 170)) = Staging"
    "deployStage (promote (promote (run 170))) = Prod"
    "promote (promote (promote (run 170))) = promote (promote (run 170))"
    by (simp_all add: promote_def)
  show ?thesis
    using promote_noop [of s] promote_Draft [of s] promote_Staging [of s]
      run_clock [of n] run_deployEnabled [of n] fresh at170 calls
    by blast
qed

theorem promote_gated_transitions_witness:
  "promote initialState = initialState \<and>
   promote (run 170) = (run 170)\<lparr>deployStage := Staging\<rparr> \<and>
   promote (promote (run 170)) = (run 170)\<lparr>deployStage := Prod\<rparr> \<and>
   \<not> deployEnabled (run 159) \<and> deployEnabled (run 160)"
proof -
  note T = promote_gated_transitions
  note noop = T [THEN conjunct1, THEN mp]
  note draft = T [THEN conjunct2, THEN conjunct1, THEN mp]
  note staging = T [THEN conjunct2, THEN conjunct2, THEN conjunct1, THEN mp]
  note gate = T [THEN conjunct2, THEN conjunct2, THEN conjunct2, THEN conjunct2, THEN conjunct1]
  have "promote initialState = initialState"
    by (rule noop) (simp add: initialState_def)
  moreover have open170: "deployEnabled (run 170)"
    unfolding gate by simp
  have first: "promote (run 170) = (run 170)\<lparr>deployStage := Staging\<rparr>"
    by (rule draft) (simp add: open170 run_deployStage)
  moreover have "promote (promote (run 170)) = (run 170)\<lparr>deployStage := Prod\<rparr>"
    unfolding first using staging [of "(run 170)\<lparr>deployStage := Staging\<rparr>"] open170 by simp
  moreover have "\<not> deployEnabled (run 159)" "deployEnabled (run 160)"
    unfolding gate by simp_all
  ultimately show ?thesis by blast
qed

section \<open>Reset\<close>

lemma reset_literals:
  "resetAgents = baseAgents" "resetArtifacts = baseArtifacts" "resetKpis = baseKpis"
  by (simp_all add: resetAgents_def baseAgents_def resetArtifacts_def baseArtifacts_def
      resetKpis_def baseKpis_def)

lemma effects_initial: "effects initialState = initialState"
  using mounted_initial by (simp add: mounted_def)

lemma resetDemo_initial: "resetDemo s = initialState"
proof (cases "tsec s = 0")
  case True
  then show ?thesis
    unfolding resetDemo_def setT_def
    by (intro Engine_eqI) (simp_all add: initialState_def reset_literals)
next
  case False
  have "s\<lparr>running := True, deployStage := Draft, deployEnabled := False, busEvents := [],
          agents := resetAgents, artifacts := resetArtifacts, kpis := resetKpis, tsec := 0\<rparr>
        = initialState"
    by (intro Engine_eqI) (simp_all add: initialState_def reset_literals)
  with False show ?thesis
    unfolding resetDemo_def setT_def by (simp add: effects_initial)
qed

text \<open>
  Claim C9. From every state, reachable or not, \<open>resetDemo\<close> leads to the state the
  component starts in: clock 0, the seven agents Queued with progress 0 and empty logs,
  the five artifacts at version 0 with their initial summaries, no bus events, the five
  KPIs with null value, confidence 0 and flat trend, stage Draft and the gate closed.
\<close>

theorem resetDemo_restores_baseline:
  "resetDemo s = initialState \<and> mounted = initialState \<and>
   tsec (resetDemo s) = 0 \<and>
   map aid (agents (resetDemo s)) = agentIds \<and> length agentIds = 7 \<and>
   (\<forall>a \<in> set (agents (resetDemo s)). status a = Queued \<and> progress a = 0 \<and> logs a = []) \<and>
   (\<forall>k. version (artifactOf k (artifacts (resetDemo s))) = 0) \<and>
   map (\<lambda>k. summary (artifactOf k (artifacts (resetDemo s))))
       [KManifest, KBindings, KKpis, KViews, KValidation] =
     [''No manifest yet.'', ''No bindings yet.'', ''No KPIs yet.'', ''No views yet.'',
      ''Not validated.''] \<and>
   busEvents (resetDemo s) = [] \<and>
   map kkey (kpis (resetDemo s)) = kpiKeys \<and> length kpiKeys = 5 \<and>
   (\<forall>k \<in> set (kpis (resetDemo s)). kvalue k = None \<and> confidence k = 0 \<and> trend k = flat) \<and>
   deployStage (resetDemo s) = Draft \<and> \<not> deployEnabled (resetDemo s)"
proof -
  have versions: "version (artifactOf k baseArtifacts) = 0" for k
    by (cases k) (simp_all add: baseArtifacts_def)
  show ?thesis
    unfolding resetDemo_initial mounted_initial
    by (simp add: initialState_def versions agentIds_def kpiKeys_def)
       (simp add: baseAgents_def baseKpis_def baseArtifacts_def)
qed

theorem resetDemo_restores_baseline_witness:
  "resetDemo (promote (run 170)) = initialState \<and>
   tsec (resetDemo (promote (run 170))) = 0 \<and>
   status (hd (agents (resetDemo (promote (run 170))))) = Queued \<and>
   progress (hd (agents (resetDemo (promote (run 170))))) = 0 \<and>
   logs (hd (agents (resetDemo (promote (run 170))))) = [] \<and>
   kvalue (hd (kpis (resetDemo (promote (run 170))))) = None \<and>
   version (validation (artifacts (resetDemo (promote (run 170))))) = 0 \<and>
   deployStage (resetDemo (promote (run 170))) = Draft \<and>
   deployStage (promote (run 170)) = Staging"
proof -
  note T = resetDemo_restores_baseline [of "promote (run 170)"]
  note whole = T [THEN conjunct1]
  note clock = T [THEN conjunct2, THEN conjunct2, THEN conjunct1]
  note ids = T [THEN conjunct2, THEN conjunct2, THEN conjunct2, THEN conjunct1]
  note each_agent = T [THEN conjunct2, THEN conjunct2, THEN conjunct2, THEN conjunct2, THEN conjunct2, THEN conjunct1, rule_format]
  note versions = T [THEN conjunct2, THEN conjunct2, THEN conjunct2, THEN conjunct2, THEN conjunct2, THEN conjunct2, THEN conjunct1, rule_format]
  note keys = T [THEN conjunct2, THEN conjunct2, THEN conjunct2, THEN conjunct2, THEN conjunct2, THEN conjunct2, THEN conjunct2, THEN conjunct2, THEN conjunct2, THEN conjunct1]
  note each_kpi = T [THEN conjunct2, THEN conjunct2, THEN conjunct2, THEN conjunct2, THEN conjunct2, THEN conjunct2, THEN conjunct2, THEN conjunct2, THEN conjunct2, THEN conjunct2, THEN conjunct2, THEN conjunct1, rule_format]
  note stage = T [THEN conjunct2, THEN conjunct2, THEN conjunct2, THEN conjunct2, THEN conjunct2, THEN conjunct2, THEN conjunct2, THEN conjunct2, THEN conjunct2, THEN conjunct2, THEN conjunct2, THEN conjunct2, THEN conjunct1]
  have a: "hd (agents (resetDemo (promote (run 170)))) \<in> set (agents (resetDemo (promote (run 170))))"
    using ids by (cases "agents (resetDemo (promote (run 170)))") (simp_all add: agentIds_def)
  have k: "hd (kpis (resetDemo (promote (run 170)))) \<in> set (kpis (resetDemo (promote (run 170))))"
    using keys by (cases "kpis (resetDemo (promote (run 170)))") (simp_all add: kpiKeys_def)
  have v: "version (validation (artifacts (resetDemo (promote (run 170))))) = 0"
    using versions [of KValidation] by simp
  have st: "deployStage (promote (run 170)) = Staging"
    by (simp add: promote_def run_deployEnabled run_deployStage)
  show ?thesis
    using whole clock each_agent [OF a] each_kpi [OF k] v stage st by blast
qed

section \<open>No agent ever fails\<close>

lemma projectAgents_ids: "map aid (projectAgents t xs) = map aid xs"
  by (simp add: projectAgents_def comp_def)

lemma projectAgents_not_Failed: "\<forall>a \<in> set (projectAgents t xs). status a \<noteq> Failed"
  by (simp add: projectAgents_def projectAgent_status_not_Failed)

lemma setT_agents:
  "agents (setT v s) = (if v = tsec s then agents s else projectAgents v (agents s))"
  by (simp add: setT_def)

lemma setT_agents_ok: "agents_ok (agents s) \<Longrightarrow> agents_ok (agents (setT v s))"
  unfolding agents_ok_def setT_agents
  using projectAgents_ids [of v "agents s"] projectAgents_not_Failed [of v "agents s"]
  by simp

lemma baseAgents_ok: "agents_ok baseAgents"
  by (simp add: agents_ok_def baseAgents_def agentIds_def)

lemma step_agents_ok:
  assumes "agents_ok (agents s)"
  shows "agents_ok (agents (step c s))"
proof (cases c)
  case Tick
  then show ?thesis using assms setT_agents_ok [OF assms] by (simp add: tick_def)
next
  case Reset
  then show ?thesis using baseAgents_ok by (simp add: resetDemo_initial initialState_def)
next
  case Promote
  then show ?thesis using assms by (simp add: promote_def)
qed (use assms setT_agents_ok [OF assms] in simp_all)

lemma exec_agents_ok: "agents_ok (agents (exec cs))"
proof (induction cs rule: rev_induct)
  case Nil
  show ?case using baseAgents_ok by (simp add: exec_def mounted_initial initialState_def)
next
  case (snoc c cs)
  then show ?case by (simp add: exec_snoc step_agents_ok)
qed

lemma status_cases: "st \<noteq> Failed \<longleftrightarrow> st \<in> {Queued, Planning, Running, NeedsReview, Done}"
  by (cases st) simp_all

text \<open>
  Claim C10. \<open>computeStatus\<close> never returns \<open>Failed\<close>, and after any sequence of commands
  (ticks, jumps, resets, promotions, pause and play) the seven agents are there and the
  status of each is one of Queued, Planning, Running, Needs review and Done.
\<close>

theorem no_agent_ever_Failed:
  "computeStatus t p start end' \<noteq> Failed \<and>
   map aid (agents (exec cs)) = agentIds \<and>
   (\<forall>a \<in> set (agents (exec cs)).
      status a \<noteq> Failed \<and> status a \<in> {Queued, Planning, Running, NeedsReview, Done})"
  using exec_agents_ok [of cs] computeStatus_not_Failed [of t p start end'] status_cases
  unfolding agents_ok_def by blast

theorem no_agent_ever_Failed_witness:
  "status (hd (agents (exec [Tick, JumpToDeploy, Promote, Reset, JumpToKpis, Tick]))) \<noteq> Failed \<and>
   map aid (agents (exec [Tick, JumpToDeploy, Promote, Reset, JumpToKpis, Tick])) = agentIds"
proof -
  note T = no_agent_ever_Failed [of _ _ _ _ "[Tick, JumpToDeploy, Promote, Reset, JumpToKpis, Tick]"]
  note ids = T [THEN conjunct2, THEN conjunct1]
  note ok = T [THEN conjunct2, THEN conjunct2, rule_format]
  have "hd (agents (exec [Tick, JumpToDeploy, Promote, Reset, JumpToKpis, Tick]))
        \<in> set (agents (exec [Tick, JumpToDeploy, Promote, Reset, JumpToKpis, Tick]))"
    using ids by (cases "agents (exec [Tick, JumpToDeploy, Promote, Reset, JumpToKpis, Tick])")
      (simp_all add: agentIds_def)
  from ok [OF this] ids show ?thesis by simp
qed

section \<open>Recomputing at the same time\<close>

lemma setT_tsec [simp]: "tsec (setT v s) = v"
  by (simp add: setT_def)



lemma logs_ok_later: "logs_ok T a \<Longrightarrow> T \<le> T' \<Longrightarrow> logs_ok T' a"
  unfolding logs_ok_def by (meson order_trans)













end
